theory Spec2Isabelle
  imports Complex_Main "HOL-Library.Word" "HOL-Library.Signed_Division"
begin

section \<open>Temporal sequences (tsequence.c)\<close>

text \<open>
  A shallow embedding of the functions of \<^verbatim>\<open>tsequence.c\<close>. Conventions:
  \<^item> \<^verbatim>\<open>TimestampTz\<close> (a 64-bit count of microseconds) is an \<open>int\<close>; differences of
    timestamps are assumed not to overflow.
  \<^item> \<^verbatim>\<open>double\<close> and \<^verbatim>\<open>long double\<close> arithmetic is idealised as arithmetic on \<open>real\<close>:
    comparisons, the order of the tests and the truncating cast \<^verbatim>\<open>(long)\<close> are kept,
    rounding is not modelled. Where a quotient or a product is not exactly representable
    the C code can take another branch or truncate to the neighbouring integer: on the
    segment from \<open>0@0\<close> to \<open>49@49\<close> and the value \<open>1\<close> the rounded product \<open>49 * (1/49)\<close> is
    below \<open>1\<close> and \<^verbatim>\<open>tnumberseq_intersection_value\<close> writes the timestamp \<open>0\<close>, where the
    exact product gives \<open>1\<close>; a fraction equal to EPSILON in exact arithmetic can compare
    either way with the rounded constant. The general lemmas on the intersection routines
    are statements about the exact arithmetic; the inputs evaluated in this theory are
    chosen so that the rounded arithmetic takes the same branches and gives the same
    timestamps.
  \<^item> \<^verbatim>\<open>EPSILON\<close> is a macro declared outside this file; every function that reads it takes
    it as its first argument \<open>eps\<close>.
  \<^item> a \<^verbatim>\<open>Datum\<close> together with its \<^verbatim>\<open>valuetypid\<close> is a value of the tagged type \<open>datum\<close>;
    \<^verbatim>\<open>datum_eq\<close> is equality of such values. The point kinds (geometry, geography) read their
    coordinates through routines of an external library and are modelled on coordinates
    in the section on point segments only.
  \<^item> \<^verbatim>\<open>ereport(ERROR, ...)\<close> and a failed \<^verbatim>\<open>assert\<close> are values of the type \<open>error\<close>.
  \<^item> the cached bounding box and trajectory of a sequence are derived from its instants by
    routines outside this file and are not stored in the model.
\<close>

subsection \<open>Data model\<close>

type_synonym TimestampTz = int

datatype datum =
    DBool bool
  | DInt int
  | DText string
  | DFloat real
  | DDouble2 real real
  | DDouble3 real real real
  | DDouble4 real real real real

definition datum_eq :: "datum \<Rightarrow> datum \<Rightarrow> bool" where
  "datum_eq v1 v2 = (v1 = v2)"

definition datum_ne :: "datum \<Rightarrow> datum \<Rightarrow> bool" where
  "datum_ne v1 v2 = (v1 \<noteq> v2)"

record tinstant =
  tinstant_value :: datum
  tinstant_t :: TimestampTz

record period =
  period_lower :: TimestampTz
  period_upper :: TimestampTz
  period_lower_inc :: bool
  period_upper_inc :: bool

record tsequence =
  seq_instants :: "tinstant list"
  seq_period :: period
  seq_linear :: bool

definition seq_count :: "tsequence \<Rightarrow> nat" where
  "seq_count seq = length (seq_instants seq)"

definition tsequence_inst_n :: "tsequence \<Rightarrow> nat \<Rightarrow> tinstant" where
  "tsequence_inst_n seq index = seq_instants seq ! index"

text \<open>
  The ways a call can fail: an \<^verbatim>\<open>ereport(ERROR, ...)\<close> of a validity check, a failed
  \<^verbatim>\<open>assert\<close>, the error of \<^verbatim>\<open>ensure_linear_interpolation\<close> and
  \<^verbatim>\<open>ensure_linear_interpolation_all\<close> on a base type without linear interpolation, a read
  outside the instants of a sequence or through a null pointer, a conversion to \<^verbatim>\<open>double\<close> of
  a value that is not a number, and a floating-point result that is undefined (NaN).
\<close>

datatype error =
  ValidationError | AssertionFailure | InterpolationError | OutOfBounds | NotNumeric | Undefined

definition period_set :: "TimestampTz \<Rightarrow> TimestampTz \<Rightarrow> bool \<Rightarrow> bool \<Rightarrow> period" where
  "period_set l u lower_inc upper_inc =
     \<lparr>period_lower = l, period_upper = u,
      period_lower_inc = lower_inc, period_upper_inc = upper_inc\<rparr>"

subsection \<open>Collinearity of three values\<close>

definition float_collinear :: "real \<Rightarrow> real \<Rightarrow> real \<Rightarrow> real \<Rightarrow> real \<Rightarrow> bool" where
  "float_collinear eps x1 x2 x3 ratio =
     (let x = x1 + (x3 - x1) * ratio in \<bar>x2 - x\<bar> \<le> eps)"

text \<open>
  \<^verbatim>\<open>datum_collinear\<close> dispatches on the base type; here the base type is the constructor.
  An array never mixes kinds (the kind is read once, from the first instant); mixed or
  non-continuous kinds end in the final \<^verbatim>\<open>return false\<close>. When \<open>t3 = t1\<close> the C code
  divides by zero: the ratio is infinite or NaN, so is the interpolated value, and every
  comparison \<^verbatim>\<open>fabs(..) <= EPSILON\<close> is false; the guard below says so.
\<close>

definition datum_collinear ::
  "real \<Rightarrow> datum \<Rightarrow> datum \<Rightarrow> datum \<Rightarrow> TimestampTz \<Rightarrow> TimestampTz \<Rightarrow> TimestampTz \<Rightarrow> bool"
where
  "datum_collinear eps value1 value2 value3 t1 t2 t3 =
     (let duration1 = real_of_int (t2 - t1);
          duration2 = real_of_int (t3 - t1);
          ratio = duration1 / duration2
      in if t3 = t1 then False
      else case value1 of
        DFloat x1 \<Rightarrow>
          (case value2 of DFloat x2 \<Rightarrow>
            (case value3 of DFloat x3 \<Rightarrow> float_collinear eps x1 x2 x3 ratio | _ \<Rightarrow> False)
           | _ \<Rightarrow> False)
      | DDouble2 a1 b1 \<Rightarrow>
          (case value2 of DDouble2 a2 b2 \<Rightarrow>
            (case value3 of DDouble2 a3 b3 \<Rightarrow>
               float_collinear eps a1 a2 a3 ratio \<and> float_collinear eps b1 b2 b3 ratio
             | _ \<Rightarrow> False)
           | _ \<Rightarrow> False)
      | DDouble3 a1 b1 c1 \<Rightarrow>
          (case value2 of DDouble3 a2 b2 c2 \<Rightarrow>
            (case value3 of DDouble3 a3 b3 c3 \<Rightarrow>
               float_collinear eps a1 a2 a3 ratio \<and> float_collinear eps b1 b2 b3 ratio \<and>
               float_collinear eps c1 c2 c3 ratio
             | _ \<Rightarrow> False)
           | _ \<Rightarrow> False)
      | DDouble4 a1 b1 c1 d1 \<Rightarrow>
          (case value2 of DDouble4 a2 b2 c2 d2 \<Rightarrow>
            (case value3 of DDouble4 a3 b3 c3 d3 \<Rightarrow>
               float_collinear eps a1 a2 a3 ratio \<and> float_collinear eps b1 b2 b3 ratio \<and>
               float_collinear eps c1 c2 c3 ratio \<and> float_collinear eps d1 d2 d3 ratio
             | _ \<Rightarrow> False)
           | _ \<Rightarrow> False)
      | _ \<Rightarrow> False)"

subsection \<open>Normalization of an array of instants\<close>

text \<open>
  The body of the \<^verbatim>\<open>for\<close> loop of \<^verbatim>\<open>tinstantarr_normalize\<close>: \<open>inst1\<close> is the last instant
  written to \<open>result\<close>, \<open>inst2\<close> the candidate, the list argument holds
  \<^verbatim>\<open>instants[i .. count-1]\<close>. After the loop the candidate is appended.
\<close>

fun normalize_loop ::
  "real \<Rightarrow> bool \<Rightarrow> tinstant \<Rightarrow> tinstant \<Rightarrow> tinstant list \<Rightarrow> tinstant list \<Rightarrow> tinstant list"
where
  "normalize_loop eps lin inst1 inst2 result [] = result @ [inst2]"
| "normalize_loop eps lin inst1 inst2 result (inst3 # rest) =
     (let value1 = tinstant_value inst1;
          value2 = tinstant_value inst2;
          value3 = tinstant_value inst3
      in if (\<not> lin \<and> datum_eq value1 value2)
            \<or> (lin \<and> datum_eq value1 value2 \<and> datum_eq value2 value3)
            \<or> (lin \<and> datum_collinear eps value1 value2 value3
                  (tinstant_t inst1) (tinstant_t inst2) (tinstant_t inst3))
         then normalize_loop eps lin inst1 inst3 result rest
         else normalize_loop eps lin inst2 inst3 (result @ [inst2]) rest)"

definition tinstantarr_normalize ::
  "real \<Rightarrow> tinstant list \<Rightarrow> bool \<Rightarrow> error + tinstant list"
where
  "tinstantarr_normalize eps instants lin =
     (case instants of
        inst1 # inst2 # rest \<Rightarrow> Inr (normalize_loop eps lin inst1 inst2 [inst1] rest)
      | _ \<Rightarrow> Inl AssertionFailure)"

text \<open>
  The rule of the specification, in its own words: the middle instant of three
  consecutive instants is redundant in Step mode when \<open>v1 = v2\<close>, in any mode when
  \<open>v1 = v2 = v3\<close>, and in Linear mode when the three values are collinear. The run is
  rewritten from the left, dropping the middle instant of a redundant triple.
\<close>

definition redundant :: "real \<Rightarrow> bool \<Rightarrow> tinstant \<Rightarrow> tinstant \<Rightarrow> tinstant \<Rightarrow> bool" where
  "redundant eps lin i1 i2 i3 =
     ((\<not> lin \<and> tinstant_value i1 = tinstant_value i2)
      \<or> (tinstant_value i1 = tinstant_value i2 \<and> tinstant_value i2 = tinstant_value i3)
      \<or> (lin \<and> datum_collinear eps (tinstant_value i1) (tinstant_value i2) (tinstant_value i3)
            (tinstant_t i1) (tinstant_t i2) (tinstant_t i3)))"

fun normalize_spec :: "real \<Rightarrow> bool \<Rightarrow> tinstant list \<Rightarrow> tinstant list" where
  "normalize_spec eps lin (i1 # i2 # i3 # rest) =
     (if redundant eps lin i1 i2 i3
      then normalize_spec eps lin (i1 # i3 # rest)
      else i1 # normalize_spec eps lin (i2 # i3 # rest))"
| "normalize_spec eps lin instants = instants"

subsection \<open>Construction\<close>

text \<open>
  Modelled from the spec: \<^verbatim>\<open>ensure_valid_tinstantarr\<close> is declared in another file of the
  repository. The specification says that construction validates that the timestamps
  are strictly increasing; the model returns \<open>True\<close> when they are, and the C routine
  reports an error otherwise.
\<close>

fun ensure_valid_tinstantarr :: "tinstant list \<Rightarrow> bool" where
  "ensure_valid_tinstantarr (inst1 # inst2 # rest) =
     (tinstant_t inst1 < tinstant_t inst2 \<and> ensure_valid_tinstantarr (inst2 # rest))"
| "ensure_valid_tinstantarr instants = True"

definition tsequence_make ::
  "real \<Rightarrow> tinstant list \<Rightarrow> bool \<Rightarrow> bool \<Rightarrow> bool \<Rightarrow> bool \<Rightarrow> error + tsequence"
where
  "tsequence_make eps instants lower_inc upper_inc lin do_normalize =
     (let count = length instants in
      if \<not> count > 0 then Inl AssertionFailure
      else if \<not> ensure_valid_tinstantarr instants then Inl ValidationError
      else if count = 1 \<and> (\<not> lower_inc \<or> \<not> upper_inc) then Inl ValidationError
      else if \<not> lin \<and> count > 1 \<and> \<not> upper_inc \<and>
              datum_ne (tinstant_value (instants ! (count - 1)))
                       (tinstant_value (instants ! (count - 2)))
           then Inl ValidationError
      else
        case (if do_normalize \<and> count > 1 then tinstantarr_normalize eps instants lin
              else Inr instants) of
          Inl e \<Rightarrow> Inl e
        | Inr norminsts \<Rightarrow>
            Inr \<lparr>seq_instants = norminsts,
                 seq_period = period_set (tinstant_t (norminsts ! 0))
                                (tinstant_t (norminsts ! (length norminsts - 1)))
                                lower_inc upper_inc,
                 seq_linear = lin\<rparr>)"

text \<open>
  A run has no redundant triple when no three consecutive instants of it satisfy the
  rule of the normalizer.
\<close>

fun no_redundant :: "real \<Rightarrow> bool \<Rightarrow> tinstant list \<Rightarrow> bool" where
  "no_redundant eps lin (i1 # i2 # i3 # rest) =
     (\<not> redundant eps lin i1 i2 i3 \<and> no_redundant eps lin (i2 # i3 # rest))"
| "no_redundant eps lin instants = True"

subsection \<open>Validity of a sequence\<close>

text \<open>
  The invariants of a sequence that \<^verbatim>\<open>tsequence_make\<close> checks or establishes: at least one
  instant, strictly increasing timestamps, the period spans the first and the last
  instant, a single instant has inclusive bounds, and with Step interpolation and an
  exclusive upper bound the last two values are equal.
\<close>

definition tsequence_valid :: "tsequence \<Rightarrow> bool" where
  "tsequence_valid seq =
     (let instants = seq_instants seq; p = seq_period seq; count = length instants in
      instants \<noteq> [] \<and>
      sorted_wrt (<) (map tinstant_t instants) \<and>
      period_lower p = tinstant_t (instants ! 0) \<and>
      period_upper p = tinstant_t (instants ! (count - 1)) \<and>
      (count = 1 \<longrightarrow> period_lower_inc p \<and> period_upper_inc p) \<and>
      (\<not> seq_linear seq \<and> 1 < count \<and> \<not> period_upper_inc p \<longrightarrow>
         tinstant_value (instants ! (count - 1)) = tinstant_value (instants ! (count - 2))))"

subsection \<open>Value at a timestamp\<close>

text \<open>
  Modelled from the spec: \<^verbatim>\<open>contains_period_timestamp_internal\<close> belongs to the period
  module, outside this file. A period is \<open>(lower, upper, lower_inc, upper_inc)\<close>; it
  contains a timestamp that lies between its bounds, a bound itself only when that bound
  is inclusive.
\<close>

definition contains_period_timestamp_internal :: "period \<Rightarrow> TimestampTz \<Rightarrow> bool" where
  "contains_period_timestamp_internal p t =
     ((period_lower p < t \<or> (period_lower p = t \<and> period_lower_inc p)) \<and>
      (t < period_upper p \<or> (t = period_upper p \<and> period_upper_inc p)))"

text \<open>
  The \<^verbatim>\<open>while\<close> loop of \<^verbatim>\<open>tsequence_find_timestamp\<close>. The C code keeps \<open>middle\<close> equal to
  \<^verbatim>\<open>(first + last)/2\<close> (integer division, truncating) at every test of the loop condition;
  the model computes it there.
\<close>

function tsequence_find_timestamp_loop :: "tsequence \<Rightarrow> TimestampTz \<Rightarrow> int \<Rightarrow> int \<Rightarrow> int" where
  "tsequence_find_timestamp_loop seq t first lst =
     (if first \<le> lst then
        (let middle = (first + lst) sdiv 2;
             inst1 = tsequence_inst_n seq (nat middle);
             inst2 = tsequence_inst_n seq (nat (middle + 1));
             lower_inc = (if middle = 0 then period_lower_inc (seq_period seq) else True);
             upper_inc = (if middle = int (seq_count seq) - 2
                          then period_upper_inc (seq_period seq) else False)
         in if (tinstant_t inst1 < t \<and> t < tinstant_t inst2)
               \<or> (lower_inc \<and> tinstant_t inst1 = t) \<or> (upper_inc \<and> tinstant_t inst2 = t)
            then middle
            else if t \<le> tinstant_t inst1
            then tsequence_find_timestamp_loop seq t first (middle - 1)
            else tsequence_find_timestamp_loop seq t (middle + 1) lst)
      else - 1)"
  by pat_completeness auto
termination
proof (relation "measure (\<lambda>(seq, t, first, lst). nat (lst - first + 1))", goal_cases)
  case 1
  show ?case by simp
next
  case (2 seq t first lst middle inst1 inst2 lower_inc upper_inc)
  from \<open>first \<le> lst\<close> have "(first + lst) sdiv 2 \<le> lst"
    by (auto simp: signed_divide_int_def sgn_if abs_if)
  with \<open>first \<le> lst\<close> \<open>middle = (first + lst) sdiv 2\<close> show ?case by simp
next
  case (3 seq t first lst middle inst1 inst2 lower_inc upper_inc)
  from \<open>first \<le> lst\<close> have "first \<le> (first + lst) sdiv 2"
    by (auto simp: signed_divide_int_def sgn_if abs_if)
  with \<open>first \<le> lst\<close> \<open>middle = (first + lst) sdiv 2\<close> show ?case by simp
qed

definition tsequence_find_timestamp :: "tsequence \<Rightarrow> TimestampTz \<Rightarrow> int" where
  "tsequence_find_timestamp seq t =
     tsequence_find_timestamp_loop seq t 0 (int (seq_count seq) - 2)"

text \<open>
  \<^verbatim>\<open>tsequence_value_at_timestamp1\<close>: the value of a segment at a timestamp between its
  instants. The interpolation branch is reached only when \<open>t\<close> differs from both
  timestamps; \<^verbatim>\<open>ensure_linear_interpolation_all\<close> rejects the base types without linear
  interpolation.
\<close>

definition tsequence_value_at_timestamp1 ::
  "tinstant \<Rightarrow> tinstant \<Rightarrow> bool \<Rightarrow> TimestampTz \<Rightarrow> error + datum"
where
  "tsequence_value_at_timestamp1 inst1 inst2 lin t =
     (let value1 = tinstant_value inst1; value2 = tinstant_value inst2 in
      if datum_eq value1 value2 \<or> tinstant_t inst1 = t \<or> (\<not> lin \<and> t < tinstant_t inst2)
      then Inr value1
      else if tinstant_t inst2 = t then Inr value2
      else
        let duration1 = real_of_int (t - tinstant_t inst1);
            duration2 = real_of_int (tinstant_t inst2 - tinstant_t inst1);
            ratio = duration1 / duration2
        in case value1 of
             DFloat start \<Rightarrow>
               (case value2 of
                  DFloat finish \<Rightarrow> Inr (DFloat (start + (finish - start) * ratio))
                | _ \<Rightarrow> Inl InterpolationError)
           | DDouble2 a1 b1 \<Rightarrow>
               (case value2 of
                  DDouble2 a2 b2 \<Rightarrow>
                    Inr (DDouble2 (a1 + (a2 - a1) * ratio) (b1 + (b2 - b1) * ratio))
                | _ \<Rightarrow> Inl InterpolationError)
           | DDouble3 a1 b1 c1 \<Rightarrow>
               (case value2 of
                  DDouble3 a2 b2 c2 \<Rightarrow>
                    Inr (DDouble3 (a1 + (a2 - a1) * ratio) (b1 + (b2 - b1) * ratio)
                           (c1 + (c2 - c1) * ratio))
                | _ \<Rightarrow> Inl InterpolationError)
           | DDouble4 a1 b1 c1 d1 \<Rightarrow>
               (case value2 of
                  DDouble4 a2 b2 c2 d2 \<Rightarrow>
                    Inr (DDouble4 (a1 + (a2 - a1) * ratio) (b1 + (b2 - b1) * ratio)
                           (c1 + (c2 - c1) * ratio) (d1 + (d2 - d1) * ratio))
                | _ \<Rightarrow> Inl InterpolationError)
           | _ \<Rightarrow> Inl InterpolationError)"

text \<open>
  \<^verbatim>\<open>tsequence_value_at_timestamp\<close> returns \<^verbatim>\<open>false\<close> (here \<open>Inr None\<close>) when the period does
  not contain the timestamp, and the value otherwise. The index returned by the search is
  used without a test; a negative index is a read outside the instants.
\<close>

definition tsequence_value_at_timestamp :: "tsequence \<Rightarrow> TimestampTz \<Rightarrow> error + datum option" where
  "tsequence_value_at_timestamp seq t =
     (if \<not> contains_period_timestamp_internal (seq_period seq) t then Inr None
      else if seq_count seq = 1 then Inr (Some (tinstant_value (tsequence_inst_n seq 0)))
      else
        let n = tsequence_find_timestamp seq t in
        if n < 0 \<or> int (seq_count seq) \<le> n + 1 then Inl OutOfBounds
        else
          case tsequence_value_at_timestamp1 (tsequence_inst_n seq (nat n))
                 (tsequence_inst_n seq (nat (n + 1))) (seq_linear seq) t of
            Inl e \<Rightarrow> Inl e
          | Inr v \<Rightarrow> Inr (Some v))"

subsection \<open>Binary input and output\<close>

text \<open>
  The message buffer (\<^verbatim>\<open>StringInfo\<close>) is a list of bytes: writing appends, reading consumes
  from the front and fails when too few bytes are left. \<^verbatim>\<open>pq_sendint32\<close>, \<^verbatim>\<open>pq_sendbyte\<close>,
  \<^verbatim>\<open>pq_getmsgint\<close> and \<^verbatim>\<open>pq_getmsgbyte\<close> are the routines of the host database: a 32-bit
  integer travels as four bytes, most significant first.
\<close>

type_synonym StringInfo = "8 word list"

datatype read_error = InsufficientData | MakeError error

definition pq_sendint32 :: "StringInfo \<Rightarrow> 32 word \<Rightarrow> StringInfo" where
  "pq_sendint32 buf i =
     buf @ [ucast (drop_bit 24 i), ucast (drop_bit 16 i), ucast (drop_bit 8 i), ucast i]"

definition pq_sendbyte :: "StringInfo \<Rightarrow> 8 word \<Rightarrow> StringInfo" where
  "pq_sendbyte buf b = buf @ [b]"

fun pq_getmsgint4 :: "StringInfo \<Rightarrow> read_error + (32 word \<times> StringInfo)" where
  "pq_getmsgint4 (b0 # b1 # b2 # b3 # rest) =
     Inr (or (push_bit 24 (ucast b0))
            (or (push_bit 16 (ucast b1)) (or (push_bit 8 (ucast b2)) (ucast b3))), rest)"
| "pq_getmsgint4 buf = Inl InsufficientData"

fun pq_getmsgbyte :: "StringInfo \<Rightarrow> read_error + (8 word \<times> StringInfo)" where
  "pq_getmsgbyte (b # rest) = Inr (b, rest)"
| "pq_getmsgbyte [] = Inl InsufficientData"

text \<open>
  \<^verbatim>\<open>tinstant_write\<close> and \<^verbatim>\<open>tinstant_read\<close> belong to the instant type, outside this file:
  they are parameters, \<open>inst_write\<close> giving the bytes of one instant and \<open>inst_read\<close>
  consuming one instant from the front of the buffer.
\<close>

fun tsequence_write_instants :: "(tinstant \<Rightarrow> StringInfo) \<Rightarrow> tinstant list \<Rightarrow> StringInfo \<Rightarrow> StringInfo" where
  "tsequence_write_instants inst_write [] buf = buf"
| "tsequence_write_instants inst_write (inst # rest) buf =
     tsequence_write_instants inst_write rest (buf @ inst_write inst)"

definition tsequence_write :: "(tinstant \<Rightarrow> StringInfo) \<Rightarrow> tsequence \<Rightarrow> StringInfo \<Rightarrow> StringInfo" where
  "tsequence_write inst_write seq buf =
     (let buf1 = pq_sendint32 buf (word_of_nat (seq_count seq));
          buf2 = pq_sendbyte buf1 (if period_lower_inc (seq_period seq) then 1 else 0);
          buf3 = pq_sendbyte buf2 (if period_upper_inc (seq_period seq) then 1 else 0);
          buf4 = pq_sendbyte buf3 (if seq_linear seq then 1 else 0)
      in tsequence_write_instants inst_write (seq_instants seq) buf4)"

text \<open>The loop of \<^verbatim>\<open>tsequence_read\<close> that reads \<open>count\<close> instants.\<close>

fun tsequence_read_instants ::
  "(StringInfo \<Rightarrow> read_error + (tinstant \<times> StringInfo)) \<Rightarrow> nat \<Rightarrow> StringInfo \<Rightarrow>
     read_error + (tinstant list \<times> StringInfo)"
where
  "tsequence_read_instants inst_read 0 buf = Inr ([], buf)"
| "tsequence_read_instants inst_read (Suc k) buf =
     (case inst_read buf of
        Inl e \<Rightarrow> Inl e
      | Inr (inst, buf1) \<Rightarrow>
          (case tsequence_read_instants inst_read k buf1 of
             Inl e \<Rightarrow> Inl e
           | Inr (instants, buf2) \<Rightarrow> Inr (inst # instants, buf2)))"

text \<open>
  \<^verbatim>\<open>tsequence_read\<close>: the count is read as a signed 32-bit integer, each flag byte is
  cast to \<^verbatim>\<open>bool\<close> (non-zero is true), and the sequence is built by
  \<^verbatim>\<open>tsequence_make_free\<close> with normalization requested. The result is the sequence and
  the unread rest of the buffer.
\<close>

definition tsequence_read ::
  "real \<Rightarrow> (StringInfo \<Rightarrow> read_error + (tinstant \<times> StringInfo)) \<Rightarrow> StringInfo \<Rightarrow>
     read_error + (tsequence \<times> StringInfo)"
where
  "tsequence_read eps inst_read buf =
     (case pq_getmsgint4 buf of
        Inl e \<Rightarrow> Inl e
      | Inr (w, buf1) \<Rightarrow>
     (case pq_getmsgbyte buf1 of
        Inl e \<Rightarrow> Inl e
      | Inr (b1, buf2) \<Rightarrow>
     (case pq_getmsgbyte buf2 of
        Inl e \<Rightarrow> Inl e
      | Inr (b2, buf3) \<Rightarrow>
     (case pq_getmsgbyte buf3 of
        Inl e \<Rightarrow> Inl e
      | Inr (b3, buf4) \<Rightarrow>
          let count = sint w; lower_inc = (b1 \<noteq> 0); upper_inc = (b2 \<noteq> 0); lin = (b3 \<noteq> 0) in
          (case tsequence_read_instants inst_read (nat count) buf4 of
             Inl e \<Rightarrow> Inl e
           | Inr (instants, buf5) \<Rightarrow>
               if \<not> count > 0 then Inl (MakeError AssertionFailure)
               else
                 (case tsequence_make eps instants lower_inc upper_inc lin True of
                    Inl e \<Rightarrow> Inl (MakeError e)
                  | Inr seq \<Rightarrow> Inr (seq, buf5)))))))"

subsection \<open>Equality and hash\<close>

text \<open>
  Modelled from the spec: \<^verbatim>\<open>period_eq_internal\<close> belongs to the period module, outside this
  file. A period is \<open>(lower, upper, lower_inc, upper_inc)\<close>; two periods are equal when
  the four components are.
\<close>

definition period_eq_internal :: "period \<Rightarrow> period \<Rightarrow> bool" where
  "period_eq_internal p1 p2 =
     (period_lower p1 = period_lower p2 \<and> period_upper p1 = period_upper p2 \<and>
      period_lower_inc p1 = period_lower_inc p2 \<and> period_upper_inc p1 = period_upper_inc p2)"

text \<open>
  \<^verbatim>\<open>tsequence_eq\<close>. The comparison of the cached bounding boxes (\<open>bbox_eq\<close>) and of two
  instants (\<open>inst_eq\<close>, the routine \<^verbatim>\<open>tinstant_eq\<close>) are routines outside this file and
  are parameters. The flags of a sequence are its interpolation flag. The \<^verbatim>\<open>for\<close> loop
  returns false at the first index whose instants differ.
\<close>

definition tsequence_eq ::
  "(tsequence \<Rightarrow> tsequence \<Rightarrow> bool) \<Rightarrow> (tinstant \<Rightarrow> tinstant \<Rightarrow> bool) \<Rightarrow>
     tsequence \<Rightarrow> tsequence \<Rightarrow> bool"
where
  "tsequence_eq bbox_eq inst_eq seq1 seq2 =
     (if seq_count seq1 \<noteq> seq_count seq2 \<or> seq_linear seq1 \<noteq> seq_linear seq2 \<or>
         \<not> period_eq_internal (seq_period seq1) (seq_period seq2)
      then False
      else if \<not> bbox_eq seq1 seq2 then False
      else list_all (\<lambda>i. inst_eq (tsequence_inst_n seq1 i) (tsequence_inst_n seq2 i))
             [0 ..< seq_count seq1])"

text \<open>
  \<^verbatim>\<open>tsequence_hash\<close> on unsigned 32-bit integers. \<open>hash_uint32\<close> is the routine of the host
  database and \<open>inst_hash\<close> the routine \<^verbatim>\<open>tinstant_hash\<close>; both are parameters.
\<close>

fun tsequence_hash_loop :: "(tinstant \<Rightarrow> 32 word) \<Rightarrow> 32 word \<Rightarrow> tinstant list \<Rightarrow> 32 word" where
  "tsequence_hash_loop inst_hash result [] = result"
| "tsequence_hash_loop inst_hash result (inst # rest) =
     tsequence_hash_loop inst_hash (push_bit 5 result - result + inst_hash inst) rest"

definition tsequence_hash ::
  "(32 word \<Rightarrow> 32 word) \<Rightarrow> (tinstant \<Rightarrow> 32 word) \<Rightarrow> tsequence \<Rightarrow> 32 word"
where
  "tsequence_hash hash_uint32 inst_hash seq =
     (let flags0 = (0 :: 8 word);
          flags1 = (if period_lower_inc (seq_period seq) then or flags0 1 else flags0);
          flags2 = (if period_upper_inc (seq_period seq) then or flags1 2 else flags1)
      in tsequence_hash_loop inst_hash (hash_uint32 (ucast flags2)) (seq_instants seq))"

subsection \<open>Intersection of a segment with a value and of two segments\<close>

text \<open>The C cast \<^verbatim>\<open>(long)\<close> of a floating-point number truncates towards zero.\<close>

definition c_long :: "real \<Rightarrow> int" where
  "c_long x = (if 0 \<le> x then \<lfloor>x\<rfloor> else \<lceil>x\<rceil>)"

text \<open>
  \<^verbatim>\<open>datum_double\<close> converts a number to \<^verbatim>\<open>double\<close>; it is defined on the numeric base types
  only.
\<close>

definition datum_double :: "datum \<Rightarrow> real option" where
  "datum_double v = (case v of DInt i \<Rightarrow> Some (real_of_int i) | DFloat x \<Rightarrow> Some x | _ \<Rightarrow> None)"

text \<open>
  \<^verbatim>\<open>tnumberseq_intersection_value\<close> in two steps. The first gives the value of the local
  variable \<^verbatim>\<open>fraction\<close> once both tests are passed: \<open>Inr None\<close> is the result \<^verbatim>\<open>false\<close>.
  The instants must hold floats (the assertion of the C code). When both values of the
  segment and the target coincide the C code divides zero by zero; the fraction is NaN
  and the timestamp undefined, which the model reports as \<open>Undefined\<close>. The second step
  computes the timestamp written to \<^verbatim>\<open>*t\<close>: \<open>Inr (Some t)\<close> is the result \<^verbatim>\<open>true\<close>.
\<close>

definition tnumberseq_value_fraction ::
  "real \<Rightarrow> tinstant \<Rightarrow> tinstant \<Rightarrow> datum \<Rightarrow> error + real option"
where
  "tnumberseq_value_fraction eps inst1 inst2 v =
     (case tinstant_value inst1 of
        DFloat dvalue1 \<Rightarrow>
          (case tinstant_value inst2 of
             DFloat dvalue2 \<Rightarrow>
               (case datum_double v of
                  None \<Rightarrow> Inl NotNumeric
                | Some dvalue \<Rightarrow>
                    let mn = min dvalue1 dvalue2; mx = max dvalue1 dvalue2 in
                    if dvalue < mn \<or> dvalue > mx then Inr None
                    else
                      let range = mx - mn; partial = dvalue - mn in
                      if range = 0 then Inl Undefined
                      else
                        let fraction = (if dvalue1 < dvalue2 then partial / range
                                        else 1 - partial / range) in
                        if \<bar>fraction\<bar> < eps \<or> \<bar>fraction - 1\<bar> < eps then Inr None
                        else Inr (Some fraction))
           | _ \<Rightarrow> Inl AssertionFailure)
      | _ \<Rightarrow> Inl AssertionFailure)"

definition tnumberseq_intersection_value ::
  "real \<Rightarrow> tinstant \<Rightarrow> tinstant \<Rightarrow> datum \<Rightarrow> error + TimestampTz option"
where
  "tnumberseq_intersection_value eps inst1 inst2 v =
     (case tnumberseq_value_fraction eps inst1 inst2 v of
        Inl e \<Rightarrow> Inl e
      | Inr None \<Rightarrow> Inr None
      | Inr (Some fraction) \<Rightarrow>
          let duration = real_of_int (tinstant_t inst2 - tinstant_t inst1) in
          Inr (Some (tinstant_t inst1 + c_long (duration * fraction))))"

text \<open>
  \<^verbatim>\<open>tnumberseq_intersection\<close> for two synchronized segments of temporal numbers, in the
  same two steps.
\<close>

definition tnumberseq_fraction ::
  "real \<Rightarrow> tinstant \<Rightarrow> tinstant \<Rightarrow> tinstant \<Rightarrow> tinstant \<Rightarrow> error + real option"
where
  "tnumberseq_fraction eps start1 end1 start2 end2 =
     (case (datum_double (tinstant_value start1), datum_double (tinstant_value end1),
            datum_double (tinstant_value start2), datum_double (tinstant_value end2)) of
        (Some x1, Some x2, Some x3, Some x4) \<Rightarrow>
          let denum = x2 - x1 - x4 + x3 in
          if denum = 0 then Inr None
          else
            let fraction = (x3 - x1) / denum in
            if fraction \<le> eps \<or> fraction \<ge> 1 - eps then Inr None
            else Inr (Some fraction)
      | _ \<Rightarrow> Inl NotNumeric)"

definition tnumberseq_intersection ::
  "real \<Rightarrow> tinstant \<Rightarrow> tinstant \<Rightarrow> tinstant \<Rightarrow> tinstant \<Rightarrow> error + TimestampTz option"
where
  "tnumberseq_intersection eps start1 end1 start2 end2 =
     (case tnumberseq_fraction eps start1 end1 start2 end2 of
        Inl e \<Rightarrow> Inl e
      | Inr None \<Rightarrow> Inr None
      | Inr (Some fraction) \<Rightarrow>
          let duration = real_of_int (tinstant_t end1 - tinstant_t start1) in
          Inr (Some (tinstant_t start1 + c_long (duration * fraction))))"

subsection \<open>Intersection of two segments of temporal points\<close>








subsection \<open>Restriction to a value and to its complement\<close>

definition tinstant_make :: "datum \<Rightarrow> TimestampTz \<Rightarrow> tinstant" where
  "tinstant_make v t = \<lparr>tinstant_value = v, tinstant_t = t\<rparr>"

text \<open>
  \<^verbatim>\<open>tlinearseq_intersection_value\<close>: \<open>Inr None\<close> is the result \<^verbatim>\<open>false\<close>,
  \<open>Inr (Some (projvalue, t))\<close> the result \<^verbatim>\<open>true\<close> with the two output parameters. Of the base types with linear
  interpolation only the floats are modelled; \<^verbatim>\<open>ensure_linear_interpolation\<close> rejects the
  other kinds of \<open>datum\<close>.
\<close>

definition tlinearseq_intersection_value ::
  "real \<Rightarrow> tinstant \<Rightarrow> tinstant \<Rightarrow> datum \<Rightarrow> error + (datum \<times> TimestampTz) option"
where
  "tlinearseq_intersection_value eps inst1 inst2 v =
     (let value1 = tinstant_value inst1; value2 = tinstant_value inst2 in
      if datum_eq v value1 \<or> datum_eq v value2 then Inr None
      else
        case value1 of
          DFloat x \<Rightarrow>
            (case tnumberseq_intersection_value eps inst1 inst2 v of
               Inl e \<Rightarrow> Inl e
             | Inr None \<Rightarrow> Inr None
             | Inr (Some t) \<Rightarrow>
                 (case tsequence_value_at_timestamp1 inst1 inst2 True t of
                    Inl e \<Rightarrow> Inl e
                  | Inr projvalue \<Rightarrow> Inr (Some (projvalue, t))))
        | _ \<Rightarrow> Inl InterpolationError)"

text \<open>
  \<^verbatim>\<open>tsequence_at_value1\<close>: the restriction of one segment; \<open>Inr None\<close> is the result
  \<^verbatim>\<open>NULL\<close>. Every sequence is built by \<^verbatim>\<open>tsequence_make\<close> without normalization.
\<close>

definition tsequence_make_opt ::
  "real \<Rightarrow> tinstant list \<Rightarrow> bool \<Rightarrow> bool \<Rightarrow> bool \<Rightarrow> error + tsequence option"
where
  "tsequence_make_opt eps instants lower_inc upper_inc lin =
     (case tsequence_make eps instants lower_inc upper_inc lin False of
        Inl e \<Rightarrow> Inl e
      | Inr seq \<Rightarrow> Inr (Some seq))"

definition tsequence_at_value1 ::
  "real \<Rightarrow> tinstant \<Rightarrow> tinstant \<Rightarrow> bool \<Rightarrow> bool \<Rightarrow> bool \<Rightarrow> datum \<Rightarrow> error + tsequence option"
where
  "tsequence_at_value1 eps inst1 inst2 lin lower_inc upper_inc v =
     (let value1 = tinstant_value inst1; value2 = tinstant_value inst2 in
      if datum_eq value1 value2 then
        (if datum_ne value1 v then Inr None
         else tsequence_make_opt eps [inst1, inst2] lower_inc upper_inc lin)
      else if \<not> lin then
        (if datum_eq value1 v
         then tsequence_make_opt eps [inst1, tinstant_make value1 (tinstant_t inst2)]
                lower_inc False lin
         else if upper_inc \<and> datum_eq v value2
         then tsequence_make_opt eps [inst2] True True lin
         else Inr None)
      else if datum_eq value1 v then
        (if \<not> lower_inc then Inr None else tsequence_make_opt eps [inst1] True True lin)
      else if datum_eq value2 v then
        (if \<not> upper_inc then Inr None else tsequence_make_opt eps [inst2] True True lin)
      else
        case tlinearseq_intersection_value eps inst1 inst2 v of
          Inl e \<Rightarrow> Inl e
        | Inr None \<Rightarrow> Inr None
        | Inr (Some (projvalue, t)) \<Rightarrow>
            tsequence_make_opt eps [tinstant_make projvalue t] True True lin)"

text \<open>
  The \<^verbatim>\<open>for\<close> loop of \<^verbatim>\<open>tsequence_at_value\<close>: \<open>inst1\<close> and \<open>lower_inc\<close> are the loop
  variables, the list holds the instants from index \<open>i\<close> on, \<open>seq_upper_inc\<close> is the
  upper bound flag of the sequence, used for the last segment.
\<close>

fun tsequence_at_value_loop ::
  "real \<Rightarrow> bool \<Rightarrow> bool \<Rightarrow> datum \<Rightarrow> tinstant \<Rightarrow> bool \<Rightarrow> tinstant list \<Rightarrow> tsequence list \<Rightarrow>
     error + tsequence list"
where
  "tsequence_at_value_loop eps lin seq_upper_inc v inst1 lower_inc [] result = Inr result"
| "tsequence_at_value_loop eps lin seq_upper_inc v inst1 lower_inc (inst2 # rest) result =
     (let upper_inc = (if rest = [] then seq_upper_inc else False) in
      case tsequence_at_value1 eps inst1 inst2 lin lower_inc upper_inc v of
        Inl e \<Rightarrow> Inl e
      | Inr None \<Rightarrow> tsequence_at_value_loop eps lin seq_upper_inc v inst2 True rest result
      | Inr (Some seq1) \<Rightarrow>
          tsequence_at_value_loop eps lin seq_upper_inc v inst2 True rest (result @ [seq1]))"

text \<open>
  \<^verbatim>\<open>tsequence_at_value\<close> and \<^verbatim>\<open>tsequence_minus_value\<close> return the sequences written to
  \<^verbatim>\<open>result\<close>. The bounding box test \<^verbatim>\<open>temporal_bbox_restrict_value\<close> is a routine outside
  this file, the parameter \<open>bbox_restrict\<close>. \<^verbatim>\<open>tsequence_copy\<close> is the identity on the model.
\<close>

definition tsequence_at_value ::
  "(tsequence \<Rightarrow> datum \<Rightarrow> bool) \<Rightarrow> real \<Rightarrow> tsequence \<Rightarrow> datum \<Rightarrow> error + tsequence list"
where
  "tsequence_at_value bbox_restrict eps seq v =
     (case seq_instants seq of
        [] \<Rightarrow> Inl OutOfBounds
      | [inst] \<Rightarrow> if datum_ne (tinstant_value inst) v then Inr [] else Inr [seq]
      | inst1 # rest \<Rightarrow>
          if \<not> bbox_restrict seq v then Inr []
          else tsequence_at_value_loop eps (seq_linear seq) (period_upper_inc (seq_period seq)) v
                 inst1 (period_lower_inc (seq_period seq)) rest [])"

text \<open>
  \<^verbatim>\<open>tlinearseq_minus_value1\<close>: the restriction of one segment with linear interpolation to
  the complement of a value, between zero and two sequences.
\<close>

definition tlinearseq_minus_value1 ::
  "real \<Rightarrow> tinstant \<Rightarrow> tinstant \<Rightarrow> bool \<Rightarrow> bool \<Rightarrow> datum \<Rightarrow> error + tsequence list"
where
  "tlinearseq_minus_value1 eps inst1 inst2 lower_inc upper_inc v =
     (let value1 = tinstant_value inst1; value2 = tinstant_value inst2;
          one = (\<lambda>r. case r of Inl e \<Rightarrow> Inl e | Inr seq \<Rightarrow> Inr [seq])
      in
      if datum_eq value1 value2 then
        (if datum_eq value1 v then Inr []
         else one (tsequence_make eps [inst1, inst2] lower_inc upper_inc True False))
      else if datum_eq value1 v then
        one (tsequence_make eps [inst1, inst2] False upper_inc True False)
      else if datum_eq value2 v then
        one (tsequence_make eps [inst1, inst2] lower_inc False True False)
      else
        case tlinearseq_intersection_value eps inst1 inst2 v of
          Inl e \<Rightarrow> Inl e
        | Inr None \<Rightarrow> one (tsequence_make eps [inst1, inst2] lower_inc upper_inc True False)
        | Inr (Some (projvalue, t)) \<Rightarrow>
            (case tsequence_make eps [inst1, tinstant_make projvalue t] lower_inc False True False of
               Inl e \<Rightarrow> Inl e
             | Inr seq0 \<Rightarrow>
                 (case tsequence_make eps [tinstant_make projvalue t, inst2] False upper_inc
                         True False of
                    Inl e \<Rightarrow> Inl e
                  | Inr seq1 \<Rightarrow> Inr [seq0, seq1])))"

text \<open>
  The two loops of \<^verbatim>\<open>tsequence_minus_value\<close>. In the Step loop \<open>instants\<close> holds
  \<^verbatim>\<open>instants[0 .. j-1]\<close>.
\<close>

fun tstepseq_minus_value_loop ::
  "real \<Rightarrow> bool \<Rightarrow> datum \<Rightarrow> tinstant list \<Rightarrow> bool \<Rightarrow> tinstant list \<Rightarrow> tsequence list \<Rightarrow>
     error + tsequence list"
where
  "tstepseq_minus_value_loop eps seq_upper_inc v instants lower_inc [] result =
     (if length instants > 0 then
        (case tsequence_make eps instants lower_inc seq_upper_inc False False of
           Inl e \<Rightarrow> Inl e
         | Inr seq1 \<Rightarrow> Inr (result @ [seq1]))
      else Inr result)"
| "tstepseq_minus_value_loop eps seq_upper_inc v instants lower_inc (inst # rest) result =
     (if datum_eq (tinstant_value inst) v then
        (if length instants > 0 then
           (case tsequence_make eps
                   (instants @ [tinstant_make (tinstant_value (instants ! (length instants - 1)))
                                  (tinstant_t inst)])
                   lower_inc False False False of
              Inl e \<Rightarrow> Inl e
            | Inr seq1 \<Rightarrow>
                tstepseq_minus_value_loop eps seq_upper_inc v [] True rest (result @ [seq1]))
         else tstepseq_minus_value_loop eps seq_upper_inc v instants True rest result)
      else tstepseq_minus_value_loop eps seq_upper_inc v (instants @ [inst]) lower_inc rest result)"

fun tlinearseq_minus_value_loop ::
  "real \<Rightarrow> bool \<Rightarrow> datum \<Rightarrow> tinstant \<Rightarrow> bool \<Rightarrow> tinstant list \<Rightarrow> tsequence list \<Rightarrow>
     error + tsequence list"
where
  "tlinearseq_minus_value_loop eps seq_upper_inc v inst1 lower_inc [] result = Inr result"
| "tlinearseq_minus_value_loop eps seq_upper_inc v inst1 lower_inc (inst2 # rest) result =
     (let upper_inc = (if rest = [] then seq_upper_inc else False) in
      case tlinearseq_minus_value1 eps inst1 inst2 lower_inc upper_inc v of
        Inl e \<Rightarrow> Inl e
      | Inr seqs \<Rightarrow>
          tlinearseq_minus_value_loop eps seq_upper_inc v inst2 True rest (result @ seqs))"

definition tsequence_minus_value ::
  "(tsequence \<Rightarrow> datum \<Rightarrow> bool) \<Rightarrow> real \<Rightarrow> tsequence \<Rightarrow> datum \<Rightarrow> error + tsequence list"
where
  "tsequence_minus_value bbox_restrict eps seq v =
     (case seq_instants seq of
        [] \<Rightarrow> Inl OutOfBounds
      | [inst] \<Rightarrow> if datum_eq (tinstant_value inst) v then Inr [] else Inr [seq]
      | inst1 # rest \<Rightarrow>
          if \<not> bbox_restrict seq v then Inr [seq]
          else if \<not> seq_linear seq then
            tstepseq_minus_value_loop eps (period_upper_inc (seq_period seq)) v []
              (period_lower_inc (seq_period seq)) (inst1 # rest) []
          else
            tlinearseq_minus_value_loop eps (period_upper_inc (seq_period seq)) v
              inst1 (period_lower_inc (seq_period seq)) rest [])"

subsection \<open>Synchronization of two sequences\<close>

text \<open>
  Modelled from the spec: \<^verbatim>\<open>intersection_period_period_internal\<close> belongs to the period
  module, outside this file. Two periods overlap when they share a timestamp; their
  intersection runs from the greater lower bound to the smaller upper bound, a bound
  being inclusive when it is inclusive in every period it comes from. \<open>None\<close> is the
  result \<^verbatim>\<open>NULL\<close> of two periods that do not overlap.
\<close>

definition intersection_period_period_internal :: "period \<Rightarrow> period \<Rightarrow> period option" where
  "intersection_period_period_internal p1 p2 =
     (if \<not> ((period_lower p1 < period_upper p2 \<or>
               (period_lower p1 = period_upper p2 \<and> period_lower_inc p1 \<and> period_upper_inc p2)) \<and>
              (period_lower p2 < period_upper p1 \<or>
               (period_lower p2 = period_upper p1 \<and> period_lower_inc p2 \<and> period_upper_inc p1)))
      then None
      else Some
        \<lparr>period_lower = max (period_lower p1) (period_lower p2),
         period_upper = min (period_upper p1) (period_upper p2),
         period_lower_inc =
           (if period_lower p1 = period_lower p2 then period_lower_inc p1 \<and> period_lower_inc p2
            else if period_lower p1 > period_lower p2 then period_lower_inc p1
            else period_lower_inc p2),
         period_upper_inc =
           (if period_upper p1 = period_upper p2 then period_upper_inc p1 \<and> period_upper_inc p2
            else if period_upper p1 < period_upper p2 then period_upper_inc p1
            else period_upper_inc p2)\<rparr>)"

text \<open>
  \<^verbatim>\<open>tsequence_at_timestamp\<close>: \<open>Inr None\<close> is the result \<^verbatim>\<open>NULL\<close>.
\<close>

definition tsequence_at_timestamp :: "tsequence \<Rightarrow> TimestampTz \<Rightarrow> error + tinstant option" where
  "tsequence_at_timestamp seq t =
     (if \<not> contains_period_timestamp_internal (seq_period seq) t then Inr None
      else if seq_count seq = 1 then Inr (Some (tsequence_inst_n seq 0))
      else
        let n = tsequence_find_timestamp seq t in
        if n < 0 \<or> int (seq_count seq) \<le> n + 1 then Inl OutOfBounds
        else
          case tsequence_value_at_timestamp1 (tsequence_inst_n seq (nat n))
                 (tsequence_inst_n seq (nat (n + 1))) (seq_linear seq) t of
            Inl e \<Rightarrow> Inl e
          | Inr v \<Rightarrow> Inr (Some (tinstant_make v t)))"

text \<open>
  \<^verbatim>\<open>tsequence_intersection\<close> of two synchronized segments: \<open>Inr None\<close> is the result
  \<^verbatim>\<open>false\<close>, \<open>Inr (Some (inter1, inter2, t))\<close> the result \<^verbatim>\<open>true\<close> with the three output
  parameters. When both segments are linear, the numeric base types go through
  \<^verbatim>\<open>tnumberseq_intersection\<close>; the point types are not part of \<open>datum\<close>, the other temporal
  base types have no branch and give \<^verbatim>\<open>false\<close>, and \<^verbatim>\<open>ensure_temporal_base_type\<close> rejects
  the rest.
\<close>

definition tsequence_intersection ::
  "real \<Rightarrow> tinstant \<Rightarrow> tinstant \<Rightarrow> bool \<Rightarrow> tinstant \<Rightarrow> tinstant \<Rightarrow> bool \<Rightarrow>
     error + (datum \<times> datum \<times> TimestampTz) option"
where
  "tsequence_intersection eps start1 end1 linear1 start2 end2 linear2 =
     (if \<not> linear1 then
        (let inter1 = tinstant_value start1 in
         case tlinearseq_intersection_value eps start2 end2 inter1 of
           Inl e \<Rightarrow> Inl e
         | Inr None \<Rightarrow> Inr None
         | Inr (Some (inter2, t)) \<Rightarrow> Inr (Some (inter1, inter2, t)))
      else if \<not> linear2 then
        (let inter2 = tinstant_value start2 in
         case tlinearseq_intersection_value eps start1 end1 inter2 of
           Inl e \<Rightarrow> Inl e
         | Inr None \<Rightarrow> Inr None
         | Inr (Some (inter1, t)) \<Rightarrow> Inr (Some (inter1, inter2, t)))
      else
        (case (case tinstant_value start1 of
                 DInt i \<Rightarrow> tnumberseq_intersection eps start1 end1 start2 end2
               | DFloat x \<Rightarrow> tnumberseq_intersection eps start1 end1 start2 end2
               | DBool b \<Rightarrow> Inr None
               | DText s \<Rightarrow> Inr None
               | _ \<Rightarrow> Inl InterpolationError) of
           Inl e \<Rightarrow> Inl e
         | Inr None \<Rightarrow> Inr None
         | Inr (Some t) \<Rightarrow>
             (case tsequence_value_at_timestamp1 start1 end1 True t of
                Inl e \<Rightarrow> Inl e
              | Inr inter1 \<Rightarrow>
                  (case tsequence_value_at_timestamp1 start2 end2 True t of
                     Inl e \<Rightarrow> Inl e
                   | Inr inter2 \<Rightarrow> Inr (Some (inter1, inter2, t))))))"

text \<open>
  The second half of the body of the \<^verbatim>\<open>while\<close> loop of
  \<^verbatim>\<open>synchronize_tsequence_tsequence\<close>: the potential crossing between the last pair of
  instants written and the pair \<open>(inst1, inst2)\<close> is added, then the pair itself. The
  counter \<open>k\<close> of the C code is the length of \<open>instants1\<close> (and of \<open>instants2\<close>).
\<close>

definition synchronize_add ::
  "real \<Rightarrow> bool \<Rightarrow> bool \<Rightarrow> bool \<Rightarrow> tinstant \<Rightarrow> tinstant \<Rightarrow> tinstant list \<Rightarrow> tinstant list \<Rightarrow>
     error + (tinstant list \<times> tinstant list)"
where
  "synchronize_add eps crossings linear1 linear2 inst1 inst2 instants1 instants2 =
     (let k = length instants1 in
      if crossings \<and> (linear1 \<or> linear2) \<and> k > 0 then
        (case tsequence_intersection eps (instants1 ! (k - 1)) inst1 linear1
                (instants2 ! (k - 1)) inst2 linear2 of
           Inl e \<Rightarrow> Inl e
         | Inr None \<Rightarrow> Inr (instants1 @ [inst1], instants2 @ [inst2])
         | Inr (Some (inter1, inter2, crosstime)) \<Rightarrow>
             Inr (instants1 @ [tinstant_make inter1 crosstime, inst1],
                  instants2 @ [tinstant_make inter2 crosstime, inst2]))
      else Inr (instants1 @ [inst1], instants2 @ [inst2]))"

text \<open>
  The \<^verbatim>\<open>while\<close> loop. The indices \<open>i\<close> and \<open>j\<close> of the C code are kept as the lists
  \<open>rest1\<close> and \<open>rest2\<close> of the instants of the two sequences from these indices on:
  incrementing an index drops the head, the loop ends when a list is empty, and the
  instants read at the end of the body are the new heads. \<open>upper\<close> is the upper bound of
  the intersection of the periods. A \<^verbatim>\<open>NULL\<close> returned by \<^verbatim>\<open>tsequence_at_timestamp\<close> is
  dereferenced by the C code; the model reports \<open>OutOfBounds\<close>.
\<close>

fun synchronize_loop ::
  "real \<Rightarrow> tsequence \<Rightarrow> tsequence \<Rightarrow> TimestampTz \<Rightarrow> bool \<Rightarrow> tinstant \<Rightarrow> tinstant \<Rightarrow>
     tinstant list \<Rightarrow> tinstant list \<Rightarrow> tinstant list \<Rightarrow> tinstant list \<Rightarrow>
     error + (tinstant list \<times> tinstant list)"
where
  "synchronize_loop eps seq1 seq2 upper crossings inst1 inst2 (x # rest1) (y # rest2)
     instants1 instants2 =
     (if tinstant_t inst1 \<le> upper \<or> tinstant_t inst2 \<le> upper then
        (if tinstant_t inst1 = tinstant_t inst2 then
           (case synchronize_add eps crossings (seq_linear seq1) (seq_linear seq2)
                   inst1 inst2 instants1 instants2 of
              Inl e \<Rightarrow> Inl e
            | Inr (new1, new2) \<Rightarrow>
                if rest1 = [] \<or> rest2 = [] then Inr (new1, new2)
                else synchronize_loop eps seq1 seq2 upper crossings (hd rest1) (hd rest2)
                       rest1 rest2 new1 new2)
         else if tinstant_t inst1 < tinstant_t inst2 then
           (case tsequence_at_timestamp seq2 (tinstant_t inst1) of
              Inl e \<Rightarrow> Inl e
            | Inr None \<Rightarrow> Inl OutOfBounds
            | Inr (Some sync2) \<Rightarrow>
                (case synchronize_add eps crossings (seq_linear seq1) (seq_linear seq2)
                        inst1 sync2 instants1 instants2 of
                   Inl e \<Rightarrow> Inl e
                 | Inr (new1, new2) \<Rightarrow>
                     if rest1 = [] then Inr (new1, new2)
                     else synchronize_loop eps seq1 seq2 upper crossings (hd rest1) y
                            rest1 (y # rest2) new1 new2))
         else
           (case tsequence_at_timestamp seq1 (tinstant_t inst2) of
              Inl e \<Rightarrow> Inl e
            | Inr None \<Rightarrow> Inl OutOfBounds
            | Inr (Some sync1) \<Rightarrow>
                (case synchronize_add eps crossings (seq_linear seq1) (seq_linear seq2)
                        sync1 inst2 instants1 instants2 of
                   Inl e \<Rightarrow> Inl e
                 | Inr (new1, new2) \<Rightarrow>
                     if rest2 = [] then Inr (new1, new2)
                     else synchronize_loop eps seq1 seq2 upper crossings x (hd rest2)
                            (x # rest1) rest2 new1 new2)))
      else Inr (instants1, instants2))"
| "synchronize_loop eps seq1 seq2 upper crossings inst1 inst2 rest1 rest2 instants1 instants2 =
     Inr (instants1, instants2)"

text \<open>
  The patch applied after the loop to a side with Step interpolation when the upper
  bound is exclusive: the last value is replaced by the value before it.
\<close>

definition synchronize_step_patch :: "bool \<Rightarrow> bool \<Rightarrow> tinstant list \<Rightarrow> tinstant list" where
  "synchronize_step_patch upper_inc lin instants =
     (let k = length instants in
      if \<not> upper_inc \<and> k > 1 \<and> \<not> lin \<and>
         datum_ne (tinstant_value (instants ! (k - 2))) (tinstant_value (instants ! (k - 1)))
      then instants [k - 1 := tinstant_make (tinstant_value (instants ! (k - 2)))
                                (tinstant_t (instants ! (k - 1)))]
      else instants)"

text \<open>
  \<^verbatim>\<open>synchronize_tsequence_tsequence\<close>: \<open>Inr None\<close> is the result \<^verbatim>\<open>false\<close>,
  \<open>Inr (Some (sync1, sync2))\<close> the result \<^verbatim>\<open>true\<close> with the two output sequences. When the
  first instant of a sequence is before the intersection, the search gives the index
  from which its instants are walked; the instant at that index is skipped by the first
  iteration, which uses the instant at the lower bound of the intersection instead.
\<close>

definition synchronize_tsequence_tsequence ::
  "real \<Rightarrow> tsequence \<Rightarrow> tsequence \<Rightarrow> bool \<Rightarrow> error + (tsequence \<times> tsequence) option"
where
  "synchronize_tsequence_tsequence eps seq1 seq2 crossings =
     (case intersection_period_period_internal (seq_period seq1) (seq_period seq2) of
        None \<Rightarrow> Inr None
      | Some pinter \<Rightarrow>
          let linear1 = seq_linear seq1; linear2 = seq_linear seq2;
              both = (\<lambda>r1 r2. case r1 of Inl e \<Rightarrow> Inl e
                       | Inr sync1 \<Rightarrow> (case r2 of Inl e \<Rightarrow> Inl e
                           | Inr sync2 \<Rightarrow> Inr (Some (sync1, sync2))))
          in
          if period_lower pinter = period_upper pinter then
            (case tsequence_at_timestamp seq1 (period_lower pinter) of
               Inl e \<Rightarrow> Inl e
             | Inr None \<Rightarrow> Inl OutOfBounds
             | Inr (Some inst1) \<Rightarrow>
                 (case tsequence_at_timestamp seq2 (period_lower pinter) of
                    Inl e \<Rightarrow> Inl e
                  | Inr None \<Rightarrow> Inl OutOfBounds
                  | Inr (Some inst2) \<Rightarrow>
                      both (tsequence_make eps [inst1] True True linear1 False)
                           (tsequence_make eps [inst2] True True linear2 False)))
          else
            (case
               (let inst1 = tsequence_inst_n seq1 0; inst2 = tsequence_inst_n seq2 0 in
                if tinstant_t inst1 < period_lower pinter then
                  (case tsequence_at_timestamp seq1 (period_lower pinter) of
                     Inl e \<Rightarrow> Inl e
                   | Inr None \<Rightarrow> Inl OutOfBounds
                   | Inr (Some first1) \<Rightarrow>
                       let i = tsequence_find_timestamp seq1 (period_lower pinter) in
                       Inr (first1, inst2,
                            if i < 0 then first1 # seq_instants seq1
                            else drop (nat i) (seq_instants seq1),
                            seq_instants seq2))
                else if tinstant_t inst2 < period_lower pinter then
                  (case tsequence_at_timestamp seq2 (period_lower pinter) of
                     Inl e \<Rightarrow> Inl e
                   | Inr None \<Rightarrow> Inl OutOfBounds
                   | Inr (Some first2) \<Rightarrow>
                       let j = tsequence_find_timestamp seq2 (period_lower pinter) in
                       Inr (inst1, first2, seq_instants seq1,
                            if j < 0 then first2 # seq_instants seq2
                            else drop (nat j) (seq_instants seq2)))
                else Inr (inst1, inst2, seq_instants seq1, seq_instants seq2)) of
               Inl e \<Rightarrow> Inl e
             | Inr (inst1, inst2, rest1, rest2) \<Rightarrow>
                 (case synchronize_loop eps seq1 seq2 (period_upper pinter) crossings
                         inst1 inst2 rest1 rest2 [] [] of
                    Inl e \<Rightarrow> Inl e
                  | Inr (instants1, instants2) \<Rightarrow>
                      both
                        (tsequence_make eps
                           (synchronize_step_patch (period_upper_inc pinter) linear1 instants1)
                           (period_lower_inc pinter) (period_upper_inc pinter) linear1 False)
                        (tsequence_make eps
                           (synchronize_step_patch (period_upper_inc pinter) linear2 instants2)
                           (period_lower_inc pinter) (period_upper_inc pinter) linear2 False))))"

section \<open>Properties\<close>

subsection \<open>Normalization\<close>

lemma hd_normalize_spec: "normalize_spec eps lin (i1 # rest) = i1 # tl (normalize_spec eps lin (i1 # rest))"
proof (induction "length rest" arbitrary: rest rule: less_induct)
  case less
  show ?case
  proof (cases rest)
    case Nil
    then show ?thesis by simp
  next
    case (Cons i2 rest2)
    show ?thesis
    proof (cases rest2)
      case Nil
      with Cons show ?thesis by simp
    next
      case (Cons i3 rest3)
      note r2 = Cons
      show ?thesis
      proof (cases "redundant eps lin i1 i2 i3")
        case True
        have "length (i3 # rest3) < length rest" using \<open>rest = i2 # rest2\<close> r2 by simp
        from less [OF this] True show ?thesis
          using \<open>rest = i2 # rest2\<close> r2 by simp
      next
        case False
        then show ?thesis using \<open>rest = i2 # rest2\<close> r2 by simp
      qed
    qed
  qed
qed

lemma normalize_loop_spec:
  "normalize_loop eps lin i1 i2 result rest = result @ tl (normalize_spec eps lin (i1 # i2 # rest))"
proof (induction rest arbitrary: i1 i2 result)
  case Nil
  show ?case by simp
next
  case (Cons i3 rest)
  show ?case
  proof (cases "redundant eps lin i1 i2 i3")
    case True
    then have "normalize_loop eps lin i1 i2 result (i3 # rest) =
               normalize_loop eps lin i1 i3 result rest"
      by (auto simp: redundant_def datum_eq_def Let_def)
    then show ?thesis using True Cons.IH [of i1 i3 result] by simp
  next
    case False
    then have "normalize_loop eps lin i1 i2 result (i3 # rest) =
               normalize_loop eps lin i2 i3 (result @ [i2]) rest"
      by (auto simp: redundant_def datum_eq_def Let_def)
    moreover have "i2 # tl (normalize_spec eps lin (i2 # i3 # rest)) = normalize_spec eps lin (i2 # i3 # rest)"
      using hd_normalize_spec [of eps lin i2 "i3 # rest"] by simp
    ultimately show ?thesis using False Cons.IH [of i2 i3 "result @ [i2]"] by simp
  qed
qed

lemma tinstantarr_normalize_spec:
  "2 \<le> length instants \<Longrightarrow>
     tinstantarr_normalize eps instants lin = Inr (normalize_spec eps lin instants)"
proof -
  assume "2 \<le> length instants"
  then obtain i1 i2 rest where eq: "instants = i1 # i2 # rest"
    by (cases instants; cases "tl instants") auto
  have "normalize_loop eps lin i1 i2 [i1] rest = normalize_spec eps lin (i1 # i2 # rest)"
    using normalize_loop_spec [of eps lin i1 i2 "[i1]" rest]
          hd_normalize_spec [of eps lin i1 "i2 # rest"] by simp
  then show ?thesis by (simp add: tinstantarr_normalize_def eq)
qed




lemma normalize_spec_fixpoint:
  "no_redundant eps lin instants \<Longrightarrow> normalize_spec eps lin instants = instants"
  by (induction eps lin instants rule: no_redundant.induct) auto

lemma normalize_spec_length:
  "2 \<le> length instants \<Longrightarrow> 2 \<le> length (normalize_spec eps lin instants)"
  by (induction eps lin instants rule: normalize_spec.induct) auto

lemma redundant_step: "redundant eps False i1 i2 i3 = (tinstant_value i1 = tinstant_value i2)"
  by (auto simp: redundant_def)

lemma no_redundant_step_Cons:
  "no_redundant eps False (i2 # rest) \<Longrightarrow> tinstant_value i1 \<noteq> tinstant_value i2 \<Longrightarrow>
     no_redundant eps False (i1 # i2 # rest)"
  by (cases rest) (auto simp: redundant_step)

lemma no_redundant_normalize_spec_step:
  "\<not> lin \<Longrightarrow> no_redundant eps lin (normalize_spec eps lin instants)"
proof (induction eps lin instants rule: normalize_spec.induct)
  case (1 eps lin i1 i2 i3 rest)
  then have lin: "lin = False" by simp
  show ?case
  proof (cases "redundant eps lin i1 i2 i3")
    case True
    with 1 show ?thesis by simp
  next
    case False
    then have ne: "tinstant_value i1 \<noteq> tinstant_value i2"
      by (simp add: lin redundant_step)
    have ih: "no_redundant eps False (normalize_spec eps False (i2 # i3 # rest))"
      using 1 False lin by simp
    have hd: "normalize_spec eps False (i2 # i3 # rest) =
              i2 # tl (normalize_spec eps False (i2 # i3 # rest))"
      by (rule hd_normalize_spec)
    have "no_redundant eps False (i1 # i2 # tl (normalize_spec eps False (i2 # i3 # rest)))"
      using no_redundant_step_Cons [OF _ ne] ih hd by metis
    then show ?thesis using False hd lin by auto
  qed
qed simp_all

text \<open>
  C9 (as amended). Normalization of an instant run is idempotent under Step
  interpolation: applying \<^verbatim>\<open>tinstantarr_normalize\<close> with \<open>linear = false\<close> to its own
  output leaves the run unchanged. (Under Linear interpolation a second pass can drop a
  further instant, see the counterexample.)
\<close>

theorem tinstantarr_normalize_step_idempotent:
  "tinstantarr_normalize eps instants False = Inr run \<Longrightarrow>
     tinstantarr_normalize eps run False = Inr run"
proof -
  assume a: "tinstantarr_normalize eps instants False = Inr run"
  then have len: "2 \<le> length instants"
    by (auto simp: tinstantarr_normalize_def split: list.splits)
  then have run: "run = normalize_spec eps False instants"
    using a tinstantarr_normalize_spec [of instants eps False] by simp
  then have "2 \<le> length run" using len normalize_spec_length by simp
  moreover have "normalize_spec eps False run = run"
    unfolding run by (rule normalize_spec_fixpoint) (simp add: no_redundant_normalize_spec_step)
  ultimately show ?thesis
    using tinstantarr_normalize_spec [of run eps False] by simp
qed

theorem tinstantarr_normalize_step_idempotent_witness:
  "tinstantarr_normalize (1 / 1000000)
      [\<lparr>tinstant_value = DInt 1, tinstant_t = 0\<rparr>,
       \<lparr>tinstant_value = DInt 1, tinstant_t = 10\<rparr>,
       \<lparr>tinstant_value = DInt 1, tinstant_t = 20\<rparr>,
       \<lparr>tinstant_value = DInt 2, tinstant_t = 30\<rparr>,
       \<lparr>tinstant_value = DInt 2, tinstant_t = 40\<rparr>] False =
     Inr [\<lparr>tinstant_value = DInt 1, tinstant_t = 0\<rparr>,
          \<lparr>tinstant_value = DInt 2, tinstant_t = 30\<rparr>,
          \<lparr>tinstant_value = DInt 2, tinstant_t = 40\<rparr>]
   \<and> tinstantarr_normalize (1 / 1000000)
      [\<lparr>tinstant_value = DInt 1, tinstant_t = 0\<rparr>,
       \<lparr>tinstant_value = DInt 2, tinstant_t = 30\<rparr>,
       \<lparr>tinstant_value = DInt 2, tinstant_t = 40\<rparr>] False =
     Inr [\<lparr>tinstant_value = DInt 1, tinstant_t = 0\<rparr>,
          \<lparr>tinstant_value = DInt 2, tinstant_t = 30\<rparr>,
          \<lparr>tinstant_value = DInt 2, tinstant_t = 40\<rparr>]"
proof -
  have first: "tinstantarr_normalize (1 / 1000000)
      [\<lparr>tinstant_value = DInt 1, tinstant_t = 0\<rparr>,
       \<lparr>tinstant_value = DInt 1, tinstant_t = 10\<rparr>,
       \<lparr>tinstant_value = DInt 1, tinstant_t = 20\<rparr>,
       \<lparr>tinstant_value = DInt 2, tinstant_t = 30\<rparr>,
       \<lparr>tinstant_value = DInt 2, tinstant_t = 40\<rparr>] False =
     Inr [\<lparr>tinstant_value = DInt 1, tinstant_t = 0\<rparr>,
          \<lparr>tinstant_value = DInt 2, tinstant_t = 30\<rparr>,
          \<lparr>tinstant_value = DInt 2, tinstant_t = 40\<rparr>]"
    by (simp add: tinstantarr_normalize_def datum_eq_def)
  from tinstantarr_normalize_step_idempotent [OF first] first show ?thesis by simp
qed

text \<open>
  Counterexample to C9 as stated, with \<open>EPSILON = 1.0E-06\<close> and Linear interpolation:
  the run \<open>(0@0, 0@1, 2.1E-06@2, 2.4E-06@3)\<close> normalizes to \<open>(0@0, 0@1, 2.4E-06@3)\<close>
  (the third instant is within EPSILON of the segment from the second to the fourth),
  and normalizing that output drops its middle instant, which is within EPSILON of the
  segment from the first to the last.
\<close>

theorem tinstantarr_normalize_linear_not_idempotent:
  "tinstantarr_normalize (1 / 1000000)
      [\<lparr>tinstant_value = DFloat 0, tinstant_t = 0\<rparr>,
       \<lparr>tinstant_value = DFloat 0, tinstant_t = 1\<rparr>,
       \<lparr>tinstant_value = DFloat (21 / 10000000), tinstant_t = 2\<rparr>,
       \<lparr>tinstant_value = DFloat (24 / 10000000), tinstant_t = 3\<rparr>] True =
     Inr [\<lparr>tinstant_value = DFloat 0, tinstant_t = 0\<rparr>,
          \<lparr>tinstant_value = DFloat 0, tinstant_t = 1\<rparr>,
          \<lparr>tinstant_value = DFloat (24 / 10000000), tinstant_t = 3\<rparr>]
   \<and> tinstantarr_normalize (1 / 1000000)
      [\<lparr>tinstant_value = DFloat 0, tinstant_t = 0\<rparr>,
       \<lparr>tinstant_value = DFloat 0, tinstant_t = 1\<rparr>,
       \<lparr>tinstant_value = DFloat (24 / 10000000), tinstant_t = 3\<rparr>] True =
     Inr [\<lparr>tinstant_value = DFloat 0, tinstant_t = 0\<rparr>,
          \<lparr>tinstant_value = DFloat (24 / 10000000), tinstant_t = 3\<rparr>]"
  by (simp add: tinstantarr_normalize_def datum_eq_def datum_collinear_def float_collinear_def Let_def)

subsection \<open>Construction\<close>

lemma ensure_valid_tinstantarr_sorted:
  "ensure_valid_tinstantarr instants = sorted_wrt (<) (map tinstant_t instants)"
proof (induction instants rule: ensure_valid_tinstantarr.induct)
  case (1 inst1 inst2 rest)
  have "sorted_wrt (<) (tinstant_t inst1 # tinstant_t inst2 # map tinstant_t rest) =
        (tinstant_t inst1 < tinstant_t inst2 \<and>
         sorted_wrt (<) (tinstant_t inst2 # map tinstant_t rest))"
    by (rule sorted_wrt2) (simp add: transp_on_def)
  with 1 show ?case by simp
qed simp_all

lemma tinstantarr_normalize_Inr:
  "2 \<le> length instants \<Longrightarrow> \<exists>norminsts. tinstantarr_normalize eps instants lin = Inr norminsts"
  by (simp add: tinstantarr_normalize_spec)

text \<open>
  C1 (as amended). For every non-empty instant array, \<^verbatim>\<open>tsequence_make\<close> fails with a
  ValidationError exactly when the timestamps are not strictly increasing, or there is
  a single instant and the lower or the upper bound is not inclusive, or the
  interpolation is Step, the upper bound is exclusive and the final two instants carry
  different values; for every other non-empty input a sequence is constructed.
\<close>

theorem tsequence_make_validation:
  "instants \<noteq> [] \<Longrightarrow>
     ((tsequence_make eps instants lower_inc upper_inc lin do_normalize = Inl ValidationError) =
        (\<not> sorted_wrt (<) (map tinstant_t instants)
         \<or> (length instants = 1 \<and> (\<not> lower_inc \<or> \<not> upper_inc))
         \<or> (\<not> lin \<and> \<not> upper_inc \<and> 2 \<le> length instants \<and>
             tinstant_value (instants ! (length instants - 1)) \<noteq>
             tinstant_value (instants ! (length instants - 2)))))
   \<and> ((\<exists>seq. tsequence_make eps instants lower_inc upper_inc lin do_normalize = Inr seq) =
        (\<not> (\<not> sorted_wrt (<) (map tinstant_t instants)
         \<or> (length instants = 1 \<and> (\<not> lower_inc \<or> \<not> upper_inc))
         \<or> (\<not> lin \<and> \<not> upper_inc \<and> 2 \<le> length instants \<and>
             tinstant_value (instants ! (length instants - 1)) \<noteq>
             tinstant_value (instants ! (length instants - 2))))))"
proof -
  assume ne: "instants \<noteq> []"
  then have pos: "0 < length instants" by simp
  show ?thesis
  proof (cases "do_normalize \<and> 1 < length instants")
    case True
    then obtain norminsts where "tinstantarr_normalize eps instants lin = Inr norminsts"
      using tinstantarr_normalize_Inr [of instants eps lin] by auto
    with True pos show ?thesis
      by (auto simp: tsequence_make_def Let_def datum_ne_def ensure_valid_tinstantarr_sorted)
  next
    case False
    with pos show ?thesis
      by (auto simp: tsequence_make_def Let_def datum_ne_def ensure_valid_tinstantarr_sorted)
  qed
qed

theorem tsequence_make_validation_witness:
  "[\<lparr>tinstant_value = DInt 1, tinstant_t = 0\<rparr>,
    \<lparr>tinstant_value = DInt 2, tinstant_t = 10\<rparr>] \<noteq> []
   \<and> tsequence_make (1 / 1000000)
       [\<lparr>tinstant_value = DInt 1, tinstant_t = 0\<rparr>,
        \<lparr>tinstant_value = DInt 2, tinstant_t = 10\<rparr>] True False False True =
      Inl ValidationError
   \<and> (\<exists>seq. tsequence_make (1 / 1000000)
       [\<lparr>tinstant_value = DInt 1, tinstant_t = 0\<rparr>,
        \<lparr>tinstant_value = DInt 2, tinstant_t = 10\<rparr>] True True False True = Inr seq)"
  using tsequence_make_validation [of
      "[\<lparr>tinstant_value = DInt 1, tinstant_t = 0\<rparr>,
        \<lparr>tinstant_value = DInt 2, tinstant_t = 10\<rparr>]" "1 / 1000000" True False False True]
    tsequence_make_validation [of
      "[\<lparr>tinstant_value = DInt 1, tinstant_t = 0\<rparr>,
        \<lparr>tinstant_value = DInt 2, tinstant_t = 10\<rparr>]" "1 / 1000000" True True False True]
  by simp

text \<open>
  Counterexample to C1 as stated: the empty array is in none of the three invalid cases,
  yet no sequence is constructed; the assertion \<^verbatim>\<open>count > 0\<close> fails, which is not a
  ValidationError.
\<close>

theorem tsequence_make_empty:
  "tsequence_make (1 / 1000000) [] True True True False = Inl AssertionFailure"
  by (simp add: tsequence_make_def)

subsection \<open>The constructor establishes the invariants\<close>

lemma set_normalize_spec: "set (normalize_spec eps lin instants) \<subseteq> set instants"
  by (induction eps lin instants rule: normalize_spec.induct) auto

lemma sorted_normalize_spec:
  "sorted_wrt (<) (map tinstant_t instants) \<Longrightarrow>
     sorted_wrt (<) (map tinstant_t (normalize_spec eps lin instants))"
proof (induction eps lin instants rule: normalize_spec.induct)
  case (1 eps lin i1 i2 i3 rest)
  show ?case
  proof (cases "redundant eps lin i1 i2 i3")
    case True
    with 1 show ?thesis by auto
  next
    case False
    have "\<forall>x \<in> set (normalize_spec eps lin (i2 # i3 # rest)). tinstant_t i1 < tinstant_t x"
      using set_normalize_spec [of eps lin "i2 # i3 # rest"] "1.prems" by auto
    with 1 False show ?thesis by auto
  qed
qed simp_all

lemma last_normalize_spec: "last (normalize_spec eps lin instants) = last instants"
proof (induction eps lin instants rule: normalize_spec.induct)
  case (1 eps lin i1 i2 i3 rest)
  have "normalize_spec eps lin (i2 # i3 # rest) \<noteq> []"
    using normalize_spec_length [of "i2 # i3 # rest" eps lin] by auto
  with 1 show ?case by auto
qed simp_all

lemma nth0_normalize_spec: "instants \<noteq> [] \<Longrightarrow> normalize_spec eps lin instants ! 0 = instants ! 0"
proof (cases instants)
  case (Cons i1 rest)
  then show ?thesis using hd_normalize_spec [of eps lin i1 rest] by (metis nth_Cons_0)
qed simp

text \<open>The values of the last two instants of a run of at least two instants are equal.\<close>

lemma step_final_pair_normalize_spec:
  assumes "2 \<le> length instants"
    and "tinstant_value (instants ! (length instants - 1)) =
         tinstant_value (instants ! (length instants - 2))"
  shows "tinstant_value (normalize_spec eps False instants !
                          (length (normalize_spec eps False instants) - 1)) =
         tinstant_value (normalize_spec eps False instants !
                          (length (normalize_spec eps False instants) - 2))"
  using assms
proof (induction "length instants" arbitrary: instants rule: less_induct)
  case less
  from less.prems(1) obtain i1 i2 rest where eq: "instants = i1 # i2 # rest"
    by (cases instants; cases "tl instants") auto
  show ?case
  proof (cases rest)
    case Nil
    with eq less.prems show ?thesis by simp
  next
    case (Cons i3 rest3)
    show ?thesis
    proof (cases "redundant eps False i1 i2 i3")
      case True
      then have v12: "tinstant_value i1 = tinstant_value i2" by (simp add: redundant_step)
      have "tinstant_value ((i1 # i3 # rest3) ! (length (i1 # i3 # rest3) - 1)) =
            tinstant_value ((i1 # i3 # rest3) ! (length (i1 # i3 # rest3) - 2))"
        using less.prems(2) v12 unfolding eq Cons by (cases rest3) auto
      from less.hyps [of "i1 # i3 # rest3", OF _ _ this] True show ?thesis
        unfolding eq Cons by simp
    next
      case False
      let ?ns = "normalize_spec eps False (i2 # i3 # rest3)"
      have len: "2 \<le> length ?ns" by (rule normalize_spec_length) simp
      have "tinstant_value ((i2 # i3 # rest3) ! (length (i2 # i3 # rest3) - 1)) =
            tinstant_value ((i2 # i3 # rest3) ! (length (i2 # i3 # rest3) - 2))"
        using less.prems(2) unfolding eq Cons by simp
      from less.hyps [of "i2 # i3 # rest3", OF _ _ this]
      have ih: "tinstant_value (?ns ! (length ?ns - 1)) = tinstant_value (?ns ! (length ?ns - 2))"
        unfolding eq Cons by simp
      have l1: "length (i1 # ?ns) - 1 = Suc (length ?ns - 1)"
        and l2: "length (i1 # ?ns) - 2 = Suc (length ?ns - 2)"
        using len by simp_all
      have "(i1 # ?ns) ! (length (i1 # ?ns) - 1) = ?ns ! (length ?ns - 1)"
        and "(i1 # ?ns) ! (length (i1 # ?ns) - 2) = ?ns ! (length ?ns - 2)"
        by (simp_all only: l1 l2 nth_Cons_Suc)
      with ih False show ?thesis unfolding eq Cons by simp
    qed
  qed
qed

text \<open>
  Every sequence that \<^verbatim>\<open>tsequence_make\<close> returns satisfies the invariants of
  \<open>tsequence_valid\<close>, with or without normalization.
\<close>

lemma tsequence_make_valid:
  assumes "tsequence_make eps instants lower_inc upper_inc lin do_normalize = Inr seq"
  shows "tsequence_valid seq"
proof -
  from assms have ne: "instants \<noteq> []"
    and sorted: "sorted_wrt (<) (map tinstant_t instants)"
    and single: "length instants = 1 \<Longrightarrow> lower_inc \<and> upper_inc"
    and step: "\<not> lin \<Longrightarrow> 1 < length instants \<Longrightarrow> \<not> upper_inc \<Longrightarrow>
                 tinstant_value (instants ! (length instants - 1)) =
                 tinstant_value (instants ! (length instants - 2))"
    by (auto simp: tsequence_make_def Let_def datum_ne_def ensure_valid_tinstantarr_sorted
             split: if_splits)
  define norminsts where
    "norminsts = (if do_normalize \<and> 1 < length instants then normalize_spec eps lin instants
                  else instants)"
  have norm: "(if do_normalize \<and> 1 < length instants then tinstantarr_normalize eps instants lin
               else Inr instants) = Inr norminsts"
    using tinstantarr_normalize_spec [of instants eps lin] by (simp add: norminsts_def)
  have seq: "seq = \<lparr>seq_instants = norminsts,
                    seq_period = period_set (tinstant_t (norminsts ! 0))
                                   (tinstant_t (norminsts ! (length norminsts - 1)))
                                   lower_inc upper_inc,
                    seq_linear = lin\<rparr>"
    using assms ne sorted single step norm
    by (auto simp: tsequence_make_def Let_def datum_ne_def ensure_valid_tinstantarr_sorted
             split: if_splits)
  have n_ne: "norminsts \<noteq> []"
    using ne normalize_spec_length [of instants eps lin] by (auto simp: norminsts_def)
  have n_sorted: "sorted_wrt (<) (map tinstant_t norminsts)"
    using sorted by (simp add: norminsts_def sorted_normalize_spec)
  have n_single: "length norminsts = 1 \<Longrightarrow> lower_inc \<and> upper_inc"
    using single normalize_spec_length [of instants eps lin]
    by (auto simp: norminsts_def split: if_splits)
  have n_step: "\<not> lin \<Longrightarrow> 1 < length norminsts \<Longrightarrow> \<not> upper_inc \<Longrightarrow>
                 tinstant_value (norminsts ! (length norminsts - 1)) =
                 tinstant_value (norminsts ! (length norminsts - 2))"
  proof -
    assume a: "\<not> lin" "1 < length norminsts" "\<not> upper_inc"
    show ?thesis
    proof (cases "do_normalize \<and> 1 < length instants")
      case True
      then have "tinstant_value (instants ! (length instants - 1)) =
                 tinstant_value (instants ! (length instants - 2))"
        using step a by simp
      from step_final_pair_normalize_spec [OF _ this, of eps] True a show ?thesis
        by (simp add: norminsts_def)
    next
      case False
      then show ?thesis using step a by (auto simp: norminsts_def)
    qed
  qed
  show ?thesis
    unfolding tsequence_valid_def seq Let_def
    using n_ne n_sorted n_single n_step by (simp add: period_set_def)
qed

subsection \<open>Value at a timestamp\<close>

lemma sdiv2_between:
  fixes first lst :: int
  assumes "first \<le> lst"
  shows "first \<le> (first + lst) sdiv 2 \<and> (first + lst) sdiv 2 \<le> lst"
  using assms by (auto simp: signed_divide_int_def sgn_if abs_if) 

lemma find_loop_stored:
  assumes sorted: "sorted_wrt (<) (map tinstant_t (seq_instants seq))"
    and n: "2 \<le> seq_count seq"
    and i: "i < seq_count seq"
    and t: "t = tinstant_t (seq_instants seq ! i)"
    and lo: "i = 0 \<Longrightarrow> period_lower_inc (seq_period seq)"
    and up: "i = seq_count seq - 1 \<Longrightarrow> period_upper_inc (seq_period seq)"
  shows "0 \<le> first \<Longrightarrow> lst \<le> int (seq_count seq) - 2 \<Longrightarrow>
         first \<le> int (min i (seq_count seq - 2)) \<Longrightarrow> int (min i (seq_count seq - 2)) \<le> lst \<Longrightarrow>
         tsequence_find_timestamp_loop seq t first lst = int (min i (seq_count seq - 2))"
proof (induction "nat (lst - first + 1)" arbitrary: first lst rule: less_induct)
  case less
  define g where "g = int (min i (seq_count seq - 2))"
  define m where "m = (first + lst) sdiv 2"
  define ts where "ts = (\<lambda>k. tinstant_t (seq_instants seq ! k))"
  have fl: "first \<le> lst" using less.prems by linarith
  have mb: "first \<le> m" "m \<le> lst" using sdiv2_between [OF fl] by (simp_all add: m_def)
  have len: "length (seq_instants seq) = seq_count seq" by (simp add: seq_count_def)
  have mono: "\<And>a b. a < b \<Longrightarrow> b < seq_count seq \<Longrightarrow> ts a < ts b"
    using sorted_wrt_nth_less [OF sorted] by (simp add: ts_def len)
  have m0: "0 \<le> m" "nat m + 1 < seq_count seq" "nat (m + 1) = nat m + 1"
    using mb less.prems by auto
  have tt: "t = ts i" by (simp add: t ts_def)
  have i1: "tinstant_t (tsequence_inst_n seq (nat m)) = ts (nat m)"
    and i2: "tinstant_t (tsequence_inst_n seq (nat (m + 1))) = ts (nat m + 1)"
    by (simp_all add: tsequence_inst_n_def ts_def m0)
  consider (eq) "m = g" | (lt) "m < g" | (gt) "g < m" by linarith
  then show ?case
  proof cases
    case eq
    have "(if m = 0 then period_lower_inc (seq_period seq) else True) \<and> ts (nat m) = t
          \<or> (if m = int (seq_count seq) - 2 then period_upper_inc (seq_period seq) else False) \<and> ts (nat m + 1) = t"
    proof (cases "i \<le> seq_count seq - 2")
      case True
      then have "nat m = i" using eq by (simp add: g_def)
      then show ?thesis using lo tt m0 by auto
    next
      case False
      then have il: "i = seq_count seq - 1" and "nat m + 1 = i" and "m = int (seq_count seq) - 2"
        using i n eq by (auto simp: g_def)
      then show ?thesis using up [OF il] tt by simp
    qed
    then show ?thesis
      using fl eq i1 i2
      by (subst tsequence_find_timestamp_loop.simps) (auto simp: Let_def m_def[symmetric] g_def)
  next
    case lt
    then have "nat m < i" "nat m + 1 \<le> i" "m \<noteq> int (seq_count seq) - 2" using m0 by (auto simp: g_def)
    then have a: "ts (nat m) < t" "ts (nat m + 1) \<le> t"
      using mono [of "nat m" i] mono [of "nat m + 1" i] i tt by (auto simp: le_less)
    have "tsequence_find_timestamp_loop seq t first lst = tsequence_find_timestamp_loop seq t (m + 1) lst"
      using fl a i1 i2 \<open>m \<noteq> int (seq_count seq) - 2\<close>
      by (subst tsequence_find_timestamp_loop.simps) (auto simp: Let_def m_def[symmetric])
    moreover have "tsequence_find_timestamp_loop seq t (m + 1) lst = int (min i (seq_count seq - 2))"
      using less.prems mb lt m0 by (intro less.hyps) (auto simp: g_def)
    ultimately show ?thesis by simp
  next
    case gt
    then have "i < nat m" "m \<noteq> 0" using m0 by (auto simp: g_def)
    then have a: "t < ts (nat m)" "t < ts (nat m + 1)"
      using mono [of i "nat m"] mono [of i "nat m + 1"] m0 tt by auto
    have "tsequence_find_timestamp_loop seq t first lst = tsequence_find_timestamp_loop seq t first (m - 1)"
      using fl a i1 i2 \<open>m \<noteq> 0\<close>
      by (subst tsequence_find_timestamp_loop.simps) (auto simp: Let_def m_def[symmetric])
    moreover have "tsequence_find_timestamp_loop seq t first (m - 1) = int (min i (seq_count seq - 2))"
      using less.prems mb gt m0 by (intro less.hyps) (auto simp: g_def)
    ultimately show ?thesis by simp
  qed
qed


lemma tsequence_find_timestamp_stored:
  assumes "sorted_wrt (<) (map tinstant_t (seq_instants seq))"
    and "2 \<le> seq_count seq"
    and "i < seq_count seq"
    and "i = 0 \<Longrightarrow> period_lower_inc (seq_period seq)"
    and "i = seq_count seq - 1 \<Longrightarrow> period_upper_inc (seq_period seq)"
  shows "tsequence_find_timestamp seq (tinstant_t (seq_instants seq ! i)) =
           int (min i (seq_count seq - 2))"
  unfolding tsequence_find_timestamp_def
  using assms by (intro find_loop_stored) auto

text \<open>
  C4 (as amended). For every valid sequence and every instant \<open>(v, t)\<close> stored in it,
  \<^verbatim>\<open>tsequence_value_at_timestamp\<close> at \<open>t\<close> succeeds and returns \<open>v\<close>, except at the first
  instant when the lower bound is exclusive and at the last instant when the upper bound
  is exclusive: there the period does not contain \<open>t\<close> and the function returns
  \<^verbatim>\<open>false\<close>.
\<close>

theorem tsequence_value_at_timestamp_stored:
  assumes valid: "tsequence_valid seq" and i: "i < seq_count seq"
  shows "tsequence_value_at_timestamp seq (tinstant_t (tsequence_inst_n seq i)) =
           (if (i = 0 \<and> \<not> period_lower_inc (seq_period seq))
               \<or> (i = seq_count seq - 1 \<and> \<not> period_upper_inc (seq_period seq))
            then Inr None
            else Inr (Some (tinstant_value (tsequence_inst_n seq i))))"
proof -
  define n where "n = seq_count seq"
  define ts where "ts = (\<lambda>k. tinstant_t (seq_instants seq ! k))"
  have len: "length (seq_instants seq) = n" by (simp add: n_def seq_count_def)
  have sorted: "sorted_wrt (<) (map tinstant_t (seq_instants seq))"
    and lower: "period_lower (seq_period seq) = ts 0"
    and upper: "period_upper (seq_period seq) = ts (n - 1)"
    and single: "n = 1 \<Longrightarrow> period_lower_inc (seq_period seq) \<and> period_upper_inc (seq_period seq)"
    using valid by (simp_all add: tsequence_valid_def Let_def ts_def len)
  have mono: "\<And>a b. a < b \<Longrightarrow> b < n \<Longrightarrow> ts a < ts b"
    using sorted_wrt_nth_less [OF sorted] by (simp add: ts_def len)
  have t: "tinstant_t (tsequence_inst_n seq i) = ts i"
    by (simp add: tsequence_inst_n_def ts_def)
  have i': "i < n" using i by (simp add: n_def)
  let ?excl = "(i = 0 \<and> \<not> period_lower_inc (seq_period seq))
               \<or> (i = n - 1 \<and> \<not> period_upper_inc (seq_period seq))"
  have contains: "contains_period_timestamp_internal (seq_period seq) (ts i) = (\<not> ?excl)"
  proof -
    have lo: "i \<noteq> 0 \<Longrightarrow> ts 0 < ts i" using mono [of 0 i] i' by simp
    have up: "i \<noteq> n - 1 \<Longrightarrow> ts i < ts (n - 1)"
    proof -
      assume "i \<noteq> n - 1"
      then have "i < n - 1" "n - 1 < n" using i' by simp_all
      then show ?thesis using mono by simp
    qed
    show ?thesis
    proof (cases "i = 0")
      case True
      show ?thesis
      proof (cases "i = n - 1")
        case True
        with \<open>i = 0\<close> show ?thesis
          by (auto simp: contains_period_timestamp_internal_def lower upper)
      next
        case False
        with True up show ?thesis
          by (auto simp: contains_period_timestamp_internal_def lower upper)
      qed
    next
      case False
      show ?thesis
      proof (cases "i = n - 1")
        case True
        with False lo show ?thesis
          by (auto simp: contains_period_timestamp_internal_def lower upper)
      next
        case n1: False
        with False lo up show ?thesis
          by (auto simp: contains_period_timestamp_internal_def lower upper)
      qed
    qed
  qed
  show ?thesis
  proof (cases ?excl)
    case True
    then show ?thesis
      using contains by (simp add: tsequence_value_at_timestamp_def t n_def)
  next
    case False
    show ?thesis
    proof (cases "n = 1")
      case True
      then have "i = 0" using i' by simp
      then show ?thesis
        using contains False True t
        by (simp add: tsequence_value_at_timestamp_def n_def [symmetric])
    next
      case n1: False
      then have n2: "2 \<le> n" using i' by simp
      define g where "g = min i (n - 2)"
      have find: "tsequence_find_timestamp seq (ts i) = int g"
        unfolding ts_def g_def n_def
        using sorted n2 i' False
        by (intro tsequence_find_timestamp_stored) (auto simp: n_def)
      have g: "g + 1 < n" "nat (int g) = g" "nat (int g + 1) = g + 1"
        using n2 by (auto simp: g_def)
      have "tsequence_value_at_timestamp1 (tsequence_inst_n seq g) (tsequence_inst_n seq (g + 1))
              (seq_linear seq) (ts i) = Inr (tinstant_value (tsequence_inst_n seq i))"
      proof (cases "i \<le> n - 2")
        case True
        then have "g = i" by (simp add: g_def)
        then show ?thesis
          by (simp add: tsequence_value_at_timestamp1_def tsequence_inst_n_def ts_def)
      next
        case False
        then have "g + 1 = i" "ts g < ts i" using i' n2 mono [of g i] by (auto simp: g_def)
        then show ?thesis
          by (auto simp: tsequence_value_at_timestamp1_def tsequence_inst_n_def ts_def
                datum_eq_def Let_def)
      qed
      then show ?thesis
        using contains False n1 find g
        by (simp add: tsequence_value_at_timestamp_def t n_def [symmetric])
    qed
  qed
qed

theorem tsequence_value_at_timestamp_stored_witness:
  "tsequence_valid
     \<lparr>seq_instants = [\<lparr>tinstant_value = DFloat 1, tinstant_t = 0\<rparr>,
                      \<lparr>tinstant_value = DFloat 3, tinstant_t = 10\<rparr>,
                      \<lparr>tinstant_value = DFloat 2, tinstant_t = 20\<rparr>],
      seq_period = \<lparr>period_lower = 0, period_upper = 20,
                    period_lower_inc = True, period_upper_inc = False\<rparr>,
      seq_linear = True\<rparr>
   \<and> tsequence_value_at_timestamp
     \<lparr>seq_instants = [\<lparr>tinstant_value = DFloat 1, tinstant_t = 0\<rparr>,
                      \<lparr>tinstant_value = DFloat 3, tinstant_t = 10\<rparr>,
                      \<lparr>tinstant_value = DFloat 2, tinstant_t = 20\<rparr>],
      seq_period = \<lparr>period_lower = 0, period_upper = 20,
                    period_lower_inc = True, period_upper_inc = False\<rparr>,
      seq_linear = True\<rparr> 10 = Inr (Some (DFloat 3))"
proof -
  let ?seq = "\<lparr>seq_instants = [\<lparr>tinstant_value = DFloat 1, tinstant_t = 0\<rparr>,
                      \<lparr>tinstant_value = DFloat 3, tinstant_t = 10\<rparr>,
                      \<lparr>tinstant_value = DFloat 2, tinstant_t = 20\<rparr>],
      seq_period = \<lparr>period_lower = 0, period_upper = 20,
                    period_lower_inc = True, period_upper_inc = False\<rparr>,
      seq_linear = True\<rparr>"
  have valid: "tsequence_valid ?seq" by (simp add: tsequence_valid_def)
  have i: "1 < seq_count ?seq" by (simp add: seq_count_def)
  from tsequence_value_at_timestamp_stored [OF valid i] valid show ?thesis
    by (simp add: tsequence_inst_n_def seq_count_def)
qed

text \<open>
  Counterexample to C4 as stated: the sequence \<open>(1@0, 2@10]\<close> with an exclusive lower
  bound, as \<^verbatim>\<open>tsequence_make\<close> builds it, stores the instant \<open>1@0\<close>, and the evaluation at
  timestamp \<open>0\<close> returns \<^verbatim>\<open>false\<close>; the sequence \<open>[1@0, 2@10)\<close> with an exclusive upper
  bound stores the instant \<open>2@10\<close>, and the evaluation at timestamp \<open>10\<close> returns
  \<^verbatim>\<open>false\<close>.
\<close>

theorem tsequence_value_at_timestamp_exclusive_bound:
  "tsequence_make (1 / 1000000)
     [\<lparr>tinstant_value = DFloat 1, tinstant_t = 0\<rparr>,
      \<lparr>tinstant_value = DFloat 2, tinstant_t = 10\<rparr>] False True True True =
     Inr \<lparr>seq_instants = [\<lparr>tinstant_value = DFloat 1, tinstant_t = 0\<rparr>,
                          \<lparr>tinstant_value = DFloat 2, tinstant_t = 10\<rparr>],
          seq_period = \<lparr>period_lower = 0, period_upper = 10,
                        period_lower_inc = False, period_upper_inc = True\<rparr>,
          seq_linear = True\<rparr>
   \<and> tsequence_value_at_timestamp
       \<lparr>seq_instants = [\<lparr>tinstant_value = DFloat 1, tinstant_t = 0\<rparr>,
                        \<lparr>tinstant_value = DFloat 2, tinstant_t = 10\<rparr>],
        seq_period = \<lparr>period_lower = 0, period_upper = 10,
                      period_lower_inc = False, period_upper_inc = True\<rparr>,
        seq_linear = True\<rparr> 0 = Inr None
   \<and> tsequence_make (1 / 1000000)
     [\<lparr>tinstant_value = DFloat 1, tinstant_t = 0\<rparr>,
      \<lparr>tinstant_value = DFloat 2, tinstant_t = 10\<rparr>] True False True True =
     Inr \<lparr>seq_instants = [\<lparr>tinstant_value = DFloat 1, tinstant_t = 0\<rparr>,
                          \<lparr>tinstant_value = DFloat 2, tinstant_t = 10\<rparr>],
          seq_period = \<lparr>period_lower = 0, period_upper = 10,
                        period_lower_inc = True, period_upper_inc = False\<rparr>,
          seq_linear = True\<rparr>
   \<and> tsequence_value_at_timestamp
       \<lparr>seq_instants = [\<lparr>tinstant_value = DFloat 1, tinstant_t = 0\<rparr>,
                        \<lparr>tinstant_value = DFloat 2, tinstant_t = 10\<rparr>],
        seq_period = \<lparr>period_lower = 0, period_upper = 10,
                      period_lower_inc = True, period_upper_inc = False\<rparr>,
        seq_linear = True\<rparr> 10 = Inr None"
  by (simp add: tsequence_make_def tinstantarr_normalize_def period_set_def
        tsequence_value_at_timestamp_def contains_period_timestamp_internal_def)

subsection \<open>Binary input and output\<close>

lemma bytes_roundtrip:
  "or (push_bit 24 (ucast (ucast (drop_bit 24 w) :: 8 word)))
      (or (push_bit 16 (ucast (ucast (drop_bit 16 w) :: 8 word)))
          (or (push_bit 8 (ucast (ucast (drop_bit 8 w) :: 8 word))) (ucast (ucast w :: 8 word)))) = (w :: 32 word)"
proof (rule bit_word_eqI)
  fix n assume "n < LENGTH(32)"
  then have n: "n < 32" by simp
  consider "n < 8" | "8 \<le> n" "n < 16" | "16 \<le> n" "n < 24" | "24 \<le> n" by linarith
  then show "bit (or (push_bit 24 (ucast (ucast (drop_bit 24 w) :: 8 word)))
      (or (push_bit 16 (ucast (ucast (drop_bit 16 w) :: 8 word)))
          (or (push_bit 8 (ucast (ucast (drop_bit 8 w) :: 8 word))) (ucast (ucast w :: 8 word))) :: 32 word)) n = bit w n"
    using n by cases (auto simp: bit_simps)
qed

lemma pq_int32_roundtrip: "pq_getmsgint4 (pq_sendint32 [] w @ rest) = Inr (w, rest)"
  by (simp add: pq_sendint32_def bytes_roundtrip)

lemma tsequence_write_instants_concat:
  "tsequence_write_instants inst_write instants buf = buf @ concat (map inst_write instants)"
  by (induction instants arbitrary: buf) simp_all

lemma tsequence_read_instants_roundtrip:
  assumes "\<forall>inst \<in> set instants. \<forall>rest. inst_read (inst_write inst @ rest) = Inr (inst, rest)"
  shows "tsequence_read_instants inst_read (length instants)
           (concat (map inst_write instants) @ rest) = Inr (instants, rest)"
  using assms by (induction instants) simp_all

lemma sint_count:
  assumes "n < 2 ^ 31"
  shows "sint (word_of_nat n :: 32 word) = int n"
proof -
  have "signed_take_bit (LENGTH(32) - 1) (int n) = int n"
    using assms by (intro signed_take_bit_int_eq_self) auto
  then have "sint (word_of_int (int n) :: 32 word) = int n"
    by (simp only: sint_sbintrunc')
  then show ?thesis by simp
qed

text \<open>
  The normalizer leaves a run unchanged exactly when the run holds no redundant triple.
  On the instants and flags of a valid sequence the constructor, with normalization,
  succeeds and returns the sequence with its run normalized.
\<close>

lemma normalize_spec_length_le:
  "length (normalize_spec eps lin instants) \<le> length instants"
  by (induction eps lin instants rule: normalize_spec.induct) auto

lemma normalize_spec_fixpoint_iff:
  "(normalize_spec eps lin instants = instants) = no_redundant eps lin instants"
proof (induction eps lin instants rule: normalize_spec.induct)
  case (1 eps lin i1 i2 i3 rest)
  show ?case
  proof (cases "redundant eps lin i1 i2 i3")
    case True
    have "length (normalize_spec eps lin (i1 # i3 # rest)) < length (i1 # i2 # i3 # rest)"
      using normalize_spec_length_le [of eps lin "i1 # i3 # rest"] by simp
    then have "normalize_spec eps lin (i1 # i3 # rest) \<noteq> i1 # i2 # i3 # rest"
      by (metis less_irrefl)
    with True show ?thesis by simp
  next
    case False
    with 1 show ?thesis by simp
  qed
qed simp_all

lemma tsequence_make_normalize_of_valid:
  assumes valid: "tsequence_valid seq"
  shows "tsequence_make eps (seq_instants seq) (period_lower_inc (seq_period seq))
           (period_upper_inc (seq_period seq)) (seq_linear seq) True =
         Inr (seq\<lparr>seq_instants := normalize_spec eps (seq_linear seq) (seq_instants seq)\<rparr>)"
proof -
  define instants where "instants = seq_instants seq"
  define norminsts where "norminsts = normalize_spec eps (seq_linear seq) instants"
  have ne: "instants \<noteq> []"
    and sorted: "ensure_valid_tinstantarr instants"
    and lower: "period_lower (seq_period seq) = tinstant_t (instants ! 0)"
    and upper: "period_upper (seq_period seq) = tinstant_t (instants ! (length instants - 1))"
    and single: "length instants = 1 \<Longrightarrow>
                   period_lower_inc (seq_period seq) \<and> period_upper_inc (seq_period seq)"
    and step: "\<not> seq_linear seq \<Longrightarrow> 1 < length instants \<Longrightarrow> \<not> period_upper_inc (seq_period seq) \<Longrightarrow>
                 tinstant_value (instants ! (length instants - 1)) =
                 tinstant_value (instants ! (length instants - 2))"
    using valid
    by (simp_all add: tsequence_valid_def Let_def instants_def ensure_valid_tinstantarr_sorted)
  have short: "\<not> 1 < length instants \<Longrightarrow> norminsts = instants"
    unfolding norminsts_def by (cases instants; cases "tl instants") auto
  have norm: "(if 1 < length instants then tinstantarr_normalize eps instants (seq_linear seq)
               else Inr instants) = Inr norminsts"
    using tinstantarr_normalize_spec [of instants eps "seq_linear seq"] short
    by (simp add: norminsts_def)
  have n_ne: "norminsts \<noteq> []"
    using ne normalize_spec_length [of instants eps "seq_linear seq"] short
    by (cases "1 < length instants") (auto simp: norminsts_def)
  have first: "norminsts ! 0 = instants ! 0"
    unfolding norminsts_def using ne by (rule nth0_normalize_spec)
  have "norminsts ! (length norminsts - 1) = last norminsts"
    using n_ne by (simp add: last_conv_nth)
  also have "\<dots> = last instants"
    unfolding norminsts_def by (rule last_normalize_spec)
  also have "\<dots> = instants ! (length instants - 1)"
    using ne by (simp add: last_conv_nth)
  finally have lst: "norminsts ! (length norminsts - 1) = instants ! (length instants - 1)" .
  have period: "period_set (tinstant_t (norminsts ! 0))
                  (tinstant_t (norminsts ! (length norminsts - 1)))
                  (period_lower_inc (seq_period seq)) (period_upper_inc (seq_period seq)) =
                seq_period seq"
    unfolding first lst using upper by (simp add: period_set_def lower [symmetric])
  have "tsequence_make eps instants (period_lower_inc (seq_period seq))
           (period_upper_inc (seq_period seq)) (seq_linear seq) True =
        Inr \<lparr>seq_instants = norminsts, seq_period = seq_period seq, seq_linear = seq_linear seq\<rparr>"
    using ne sorted single step norm period
    by (auto simp: tsequence_make_def Let_def datum_ne_def)
  then show ?thesis by (simp add: instants_def norminsts_def)
qed

text \<open>
  C8 (as amended). For every valid sequence, decoding the binary encoding yields the
  sequence with its run of instants normalized and consumes exactly the bytes written;
  the result is the sequence itself exactly when its run holds no redundant triple, that
  is, no three consecutive instants of which the normalizer drops the middle one. The
  encoding is, in order, the count as a 4-byte integer, the flags \<open>lower_inc\<close>,
  \<open>upper_inc\<close> and \<open>linear\<close> each as one byte holding 0 or 1, and the instants in their
  order. The encoding of one instant is that of the instant type; each instant of the
  sequence is assumed to decode to itself. The count is assumed to fit a signed 32-bit
  integer.
\<close>

theorem tsequence_read_write:
  assumes codec: "\<forall>inst \<in> set (seq_instants seq). \<forall>rest.
                    inst_read (inst_write inst @ rest) = Inr (inst, rest)"
    and valid: "tsequence_valid seq"
    and count: "seq_count seq < 2 ^ 31"
  shows "(tsequence_read eps inst_read (tsequence_write inst_write seq [] @ rest) = Inr (seq, rest))
           = no_redundant eps (seq_linear seq) (seq_instants seq)
    \<and> tsequence_read eps inst_read (tsequence_write inst_write seq [] @ rest) =
        Inr (seq\<lparr>seq_instants := normalize_spec eps (seq_linear seq) (seq_instants seq)\<rparr>, rest)
    \<and> tsequence_write inst_write seq [] =
        pq_sendint32 [] (word_of_nat (seq_count seq)) @
        [if period_lower_inc (seq_period seq) then 1 else 0,
         if period_upper_inc (seq_period seq) then 1 else 0,
         if seq_linear seq then 1 else 0] @
        concat (map inst_write (seq_instants seq))"
proof -
  have layout: "tsequence_write inst_write seq [] =
        pq_sendint32 [] (word_of_nat (seq_count seq)) @
        [if period_lower_inc (seq_period seq) then 1 else 0,
         if period_upper_inc (seq_period seq) then 1 else 0,
         if seq_linear seq then 1 else 0] @
        concat (map inst_write (seq_instants seq))"
    by (simp add: tsequence_write_def Let_def pq_sendbyte_def tsequence_write_instants_concat)
  have pos: "0 < seq_count seq"
    using valid by (simp add: tsequence_valid_def Let_def seq_count_def)
  have cnt: "sint (word_of_nat (seq_count seq) :: 32 word) = int (seq_count seq)"
    using count by (rule sint_count)
  have int: "pq_getmsgint4 (pq_sendint32 [] (word_of_nat (seq_count seq)) @ bs) =
             Inr (word_of_nat (seq_count seq), bs)" for bs
    by (rule pq_int32_roundtrip)
  have insts: "tsequence_read_instants inst_read (seq_count seq)
                 (concat (map inst_write (seq_instants seq)) @ rest) = Inr (seq_instants seq, rest)"
    unfolding seq_count_def by (rule tsequence_read_instants_roundtrip [OF codec])
  have make: "tsequence_make eps (seq_instants seq) (period_lower_inc (seq_period seq))
           (period_upper_inc (seq_period seq)) (seq_linear seq) True =
         Inr (seq\<lparr>seq_instants := normalize_spec eps (seq_linear seq) (seq_instants seq)\<rparr>)"
    by (rule tsequence_make_normalize_of_valid [OF valid])
  have decoded: "tsequence_read eps inst_read (tsequence_write inst_write seq [] @ rest) =
        Inr (seq\<lparr>seq_instants := normalize_spec eps (seq_linear seq) (seq_instants seq)\<rparr>, rest)"
    unfolding layout tsequence_read_def
    using pos make by (auto simp: int cnt insts)
  have "(seq\<lparr>seq_instants := normalize_spec eps (seq_linear seq) (seq_instants seq)\<rparr> = seq) =
        (normalize_spec eps (seq_linear seq) (seq_instants seq) = seq_instants seq)"
    by (cases seq) auto
  then have same: "(tsequence_read eps inst_read (tsequence_write inst_write seq [] @ rest) =
                      Inr (seq, rest))
                   = no_redundant eps (seq_linear seq) (seq_instants seq)"
    by (simp add: decoded normalize_spec_fixpoint_iff)
  from same decoded layout show ?thesis by (intro conjI)
qed

theorem tsequence_read_write_witness:
  "tsequence_valid
     \<lparr>seq_instants = [\<lparr>tinstant_value = DInt 1, tinstant_t = 0\<rparr>,
                      \<lparr>tinstant_value = DInt 2, tinstant_t = 10\<rparr>,
                      \<lparr>tinstant_value = DInt 2, tinstant_t = 20\<rparr>],
      seq_period = \<lparr>period_lower = 0, period_upper = 20,
                    period_lower_inc = True, period_upper_inc = False\<rparr>,
      seq_linear = False\<rparr>
   \<and> no_redundant (1 / 1000000) False
       [\<lparr>tinstant_value = DInt 1, tinstant_t = 0\<rparr>,
        \<lparr>tinstant_value = DInt 2, tinstant_t = 10\<rparr>,
        \<lparr>tinstant_value = DInt 2, tinstant_t = 20\<rparr>]
   \<and> tsequence_read (1 / 1000000)
       (\<lambda>buf. case buf of
          a # b # rest \<Rightarrow> Inr (\<lparr>tinstant_value = DInt (uint b), tinstant_t = uint a\<rparr>, rest)
        | _ \<Rightarrow> Inl InsufficientData)
       (tsequence_write
          (\<lambda>inst. [word_of_int (tinstant_t inst),
                    case tinstant_value inst of DInt v \<Rightarrow> word_of_int v | _ \<Rightarrow> 0])
          \<lparr>seq_instants = [\<lparr>tinstant_value = DInt 1, tinstant_t = 0\<rparr>,
                           \<lparr>tinstant_value = DInt 2, tinstant_t = 10\<rparr>,
                           \<lparr>tinstant_value = DInt 2, tinstant_t = 20\<rparr>],
           seq_period = \<lparr>period_lower = 0, period_upper = 20,
                         period_lower_inc = True, period_upper_inc = False\<rparr>,
           seq_linear = False\<rparr> [] @ []) =
     Inr (\<lparr>seq_instants = [\<lparr>tinstant_value = DInt 1, tinstant_t = 0\<rparr>,
                           \<lparr>tinstant_value = DInt 2, tinstant_t = 10\<rparr>,
                           \<lparr>tinstant_value = DInt 2, tinstant_t = 20\<rparr>],
           seq_period = \<lparr>period_lower = 0, period_upper = 20,
                         period_lower_inc = True, period_upper_inc = False\<rparr>,
           seq_linear = False\<rparr>, [])"
proof -
  let ?seq = "\<lparr>seq_instants = [\<lparr>tinstant_value = DInt 1, tinstant_t = 0\<rparr>,
                           \<lparr>tinstant_value = DInt 2, tinstant_t = 10\<rparr>,
                           \<lparr>tinstant_value = DInt 2, tinstant_t = 20\<rparr>],
           seq_period = \<lparr>period_lower = 0, period_upper = 20,
                         period_lower_inc = True, period_upper_inc = False\<rparr>,
           seq_linear = False\<rparr>"
  let ?ird = "\<lambda>buf. case buf of
          a # b # rest \<Rightarrow> Inr (\<lparr>tinstant_value = DInt (uint (b :: 8 word)),
                                  tinstant_t = uint (a :: 8 word)\<rparr>, rest)
        | _ \<Rightarrow> Inl InsufficientData"
  let ?iwr = "\<lambda>inst. [word_of_int (tinstant_t inst) :: 8 word,
                    case tinstant_value inst of DInt v \<Rightarrow> word_of_int v | _ \<Rightarrow> 0]"
  have valid: "tsequence_valid ?seq" by (simp add: tsequence_valid_def)
  have normal: "no_redundant (1 / 1000000) (seq_linear ?seq) (seq_instants ?seq)"
    by (simp add: redundant_def)
  have count: "seq_count ?seq < 2 ^ 31" by (simp add: seq_count_def)
  have codec: "\<forall>inst \<in> set (seq_instants ?seq). \<forall>rest. ?ird (?iwr inst @ rest) = Inr (inst, rest)"
    by simp
  from tsequence_read_write [of ?seq ?ird ?iwr "1 / 1000000" "[]", OF codec valid count]
  have "(tsequence_read (1 / 1000000) ?ird (tsequence_write ?iwr ?seq [] @ []) = Inr (?seq, []))
          = no_redundant (1 / 1000000) (seq_linear ?seq) (seq_instants ?seq)"
    by (rule conjunct1)
  with normal
  have "tsequence_read (1 / 1000000) ?ird (tsequence_write ?iwr ?seq [] @ []) = Inr (?seq, [])"
    by (rule_tac iffD2)
  moreover from normal have "no_redundant (1 / 1000000) False
       [\<lparr>tinstant_value = DInt 1, tinstant_t = 0\<rparr>,
        \<lparr>tinstant_value = DInt 2, tinstant_t = 10\<rparr>,
        \<lparr>tinstant_value = DInt 2, tinstant_t = 20\<rparr>]" by simp
  ultimately show ?thesis using valid by (intro conjI)
qed

text \<open>
  Counterexample to C8 as stated (\<open>EPSILON = 1.0E-06\<close>). From the linear run
  \<open>0@0, 0@1, 2.1E-06@2, 2.4E-06@3\<close> the constructor, with normalization, builds the valid
  sequence \<open>[0@0, 0@1, 2.4E-06@3]\<close>: the single pass of the normalizer drops \<open>2.1E-06@2\<close>,
  collinear with its neighbours within EPSILON, and does not compare \<open>0@1\<close> with its new
  neighbour \<open>2.4E-06@3\<close>. Decoding the encoding of that sequence normalizes once more and
  drops \<open>0@1\<close>: the result is the sequence \<open>[0@0, 2.4E-06@3]\<close>, not the one encoded. An
  instant is encoded here by two bytes, its timestamp and a tag of its value, and each of
  the three instants of the sequence decodes to itself.
\<close>

theorem tsequence_read_write_renormalized:
  "tsequence_make (1 / 1000000)
     [\<lparr>tinstant_value = DFloat 0, tinstant_t = 0\<rparr>,
      \<lparr>tinstant_value = DFloat 0, tinstant_t = 1\<rparr>,
      \<lparr>tinstant_value = DFloat (21 / 10000000), tinstant_t = 2\<rparr>,
      \<lparr>tinstant_value = DFloat (24 / 10000000), tinstant_t = 3\<rparr>] True True True True =
     Inr \<lparr>seq_instants = [\<lparr>tinstant_value = DFloat 0, tinstant_t = 0\<rparr>,
                          \<lparr>tinstant_value = DFloat 0, tinstant_t = 1\<rparr>,
                          \<lparr>tinstant_value = DFloat (24 / 10000000), tinstant_t = 3\<rparr>],
          seq_period = \<lparr>period_lower = 0, period_upper = 3,
                        period_lower_inc = True, period_upper_inc = True\<rparr>,
          seq_linear = True\<rparr>
   \<and> tsequence_valid
       \<lparr>seq_instants = [\<lparr>tinstant_value = DFloat 0, tinstant_t = 0\<rparr>,
                        \<lparr>tinstant_value = DFloat 0, tinstant_t = 1\<rparr>,
                        \<lparr>tinstant_value = DFloat (24 / 10000000), tinstant_t = 3\<rparr>],
        seq_period = \<lparr>period_lower = 0, period_upper = 3,
                      period_lower_inc = True, period_upper_inc = True\<rparr>,
        seq_linear = True\<rparr>
   \<and> list_all
       (\<lambda>inst.
          (case [word_of_int (tinstant_t inst), if tinstant_value inst = DFloat 0 then 0 else 1] of
             a # b # rest \<Rightarrow>
               Inr (\<lparr>tinstant_value = (if b = (0 :: 8 word) then DFloat 0
                                        else DFloat (24 / 10000000)),
                     tinstant_t = uint (a :: 8 word)\<rparr>, rest)
           | _ \<Rightarrow> Inl InsufficientData) = Inr (inst, []))
       [\<lparr>tinstant_value = DFloat 0, tinstant_t = 0\<rparr>,
        \<lparr>tinstant_value = DFloat 0, tinstant_t = 1\<rparr>,
        \<lparr>tinstant_value = DFloat (24 / 10000000), tinstant_t = 3\<rparr>]
   \<and> tsequence_read (1 / 1000000)
       (\<lambda>buf. case buf of
          a # b # rest \<Rightarrow>
            Inr (\<lparr>tinstant_value = (if b = 0 then DFloat 0 else DFloat (24 / 10000000)),
                  tinstant_t = uint a\<rparr>, rest)
        | _ \<Rightarrow> Inl InsufficientData)
       (tsequence_write
          (\<lambda>inst. [word_of_int (tinstant_t inst),
                    if tinstant_value inst = DFloat 0 then 0 else 1])
          \<lparr>seq_instants = [\<lparr>tinstant_value = DFloat 0, tinstant_t = 0\<rparr>,
                           \<lparr>tinstant_value = DFloat 0, tinstant_t = 1\<rparr>,
                           \<lparr>tinstant_value = DFloat (24 / 10000000), tinstant_t = 3\<rparr>],
           seq_period = \<lparr>period_lower = 0, period_upper = 3,
                         period_lower_inc = True, period_upper_inc = True\<rparr>,
           seq_linear = True\<rparr> []) =
     Inr (\<lparr>seq_instants = [\<lparr>tinstant_value = DFloat 0, tinstant_t = 0\<rparr>,
                           \<lparr>tinstant_value = DFloat (24 / 10000000), tinstant_t = 3\<rparr>],
           seq_period = \<lparr>period_lower = 0, period_upper = 3,
                         period_lower_inc = True, period_upper_inc = True\<rparr>,
           seq_linear = True\<rparr>, [])"
  by (simp add: tsequence_make_def tinstantarr_normalize_def datum_collinear_def
        float_collinear_def datum_eq_def datum_ne_def period_set_def tsequence_valid_def
        tsequence_read_def tsequence_write_def pq_sendint32_def pq_sendbyte_def seq_count_def
        numeral_3_eq_3 Let_def)

subsection \<open>Equality and hash\<close>

lemma tsequence_hash_loop_cong:
  "length xs = length ys \<Longrightarrow> (\<forall>i < length xs. inst_hash (xs ! i) = inst_hash (ys ! i)) \<Longrightarrow>
     tsequence_hash_loop inst_hash r xs = tsequence_hash_loop inst_hash r ys"
proof (induction xs ys arbitrary: r rule: list_induct2)
  case Nil
  show ?case by simp
next
  case (Cons x xs y ys)
  from Cons.prems have "inst_hash x = inst_hash y" by force
  moreover from Cons.prems have "\<forall>i < length xs. inst_hash (xs ! i) = inst_hash (ys ! i)" by force
  ultimately show ?case using Cons.IH by simp
qed

text \<open>
  C10. Hashing is consistent with equality: when \<^verbatim>\<open>tsequence_eq\<close> holds of two sequences,
  \<^verbatim>\<open>tsequence_hash\<close> gives them the same hash, provided the hash of an instant is
  consistent with the equality of instants. The hash reads only the two bound flags and
  the instants in order, and equal sequences share them.
\<close>

theorem tsequence_eq_hash:
  assumes respects: "\<forall>inst1 inst2. inst_eq inst1 inst2 \<longrightarrow> inst_hash inst1 = inst_hash inst2"
    and eq: "tsequence_eq bbox_eq inst_eq seq1 seq2"
  shows "tsequence_hash hash_uint32 inst_hash seq1 = tsequence_hash hash_uint32 inst_hash seq2"
proof -
  from eq have count: "length (seq_instants seq1) = length (seq_instants seq2)"
    and period: "period_eq_internal (seq_period seq1) (seq_period seq2)"
    and insts: "\<forall>i < length (seq_instants seq1).
                  inst_eq (seq_instants seq1 ! i) (seq_instants seq2 ! i)"
    by (auto simp: tsequence_eq_def seq_count_def tsequence_inst_n_def list_all_iff
             split: if_splits)
  from insts respects have "\<forall>i < length (seq_instants seq1).
      inst_hash (seq_instants seq1 ! i) = inst_hash (seq_instants seq2 ! i)"
    by blast
  then have "tsequence_hash_loop inst_hash r (seq_instants seq1) =
             tsequence_hash_loop inst_hash r (seq_instants seq2)" for r
    using count by (intro tsequence_hash_loop_cong) auto
  moreover from period have "period_lower_inc (seq_period seq1) = period_lower_inc (seq_period seq2)"
    and "period_upper_inc (seq_period seq1) = period_upper_inc (seq_period seq2)"
    by (simp_all add: period_eq_internal_def)
  ultimately show ?thesis by (simp add: tsequence_hash_def Let_def)
qed

theorem tsequence_eq_hash_witness:
  "tsequence_eq (\<lambda>seq1 seq2. True) (\<lambda>inst1 inst2. tinstant_t inst1 = tinstant_t inst2)
     \<lparr>seq_instants = [\<lparr>tinstant_value = DInt 1, tinstant_t = 0\<rparr>,
                      \<lparr>tinstant_value = DInt 2, tinstant_t = 10\<rparr>],
      seq_period = \<lparr>period_lower = 0, period_upper = 10,
                    period_lower_inc = True, period_upper_inc = True\<rparr>,
      seq_linear = False\<rparr>
     \<lparr>seq_instants = [\<lparr>tinstant_value = DInt 5, tinstant_t = 0\<rparr>,
                      \<lparr>tinstant_value = DInt 7, tinstant_t = 10\<rparr>],
      seq_period = \<lparr>period_lower = 0, period_upper = 10,
                    period_lower_inc = True, period_upper_inc = True\<rparr>,
      seq_linear = False\<rparr>
   \<and> tsequence_hash (\<lambda>w. w + 1) (\<lambda>inst. word_of_int (tinstant_t inst))
     \<lparr>seq_instants = [\<lparr>tinstant_value = DInt 1, tinstant_t = 0\<rparr>,
                      \<lparr>tinstant_value = DInt 2, tinstant_t = 10\<rparr>],
      seq_period = \<lparr>period_lower = 0, period_upper = 10,
                    period_lower_inc = True, period_upper_inc = True\<rparr>,
      seq_linear = False\<rparr> =
     tsequence_hash (\<lambda>w. w + 1) (\<lambda>inst. word_of_int (tinstant_t inst))
     \<lparr>seq_instants = [\<lparr>tinstant_value = DInt 5, tinstant_t = 0\<rparr>,
                      \<lparr>tinstant_value = DInt 7, tinstant_t = 10\<rparr>],
      seq_period = \<lparr>period_lower = 0, period_upper = 10,
                    period_lower_inc = True, period_upper_inc = True\<rparr>,
      seq_linear = False\<rparr>"
proof -
  let ?eq = "\<lambda>inst1 inst2. tinstant_t inst1 = tinstant_t inst2"
  let ?hash = "\<lambda>inst. word_of_int (tinstant_t inst) :: 32 word"
  let ?s1 = "\<lparr>seq_instants = [\<lparr>tinstant_value = DInt 1, tinstant_t = 0\<rparr>,
                      \<lparr>tinstant_value = DInt 2, tinstant_t = 10\<rparr>],
      seq_period = \<lparr>period_lower = 0, period_upper = 10,
                    period_lower_inc = True, period_upper_inc = True\<rparr>,
      seq_linear = False\<rparr>"
  let ?s2 = "\<lparr>seq_instants = [\<lparr>tinstant_value = DInt 5, tinstant_t = 0\<rparr>,
                      \<lparr>tinstant_value = DInt 7, tinstant_t = 10\<rparr>],
      seq_period = \<lparr>period_lower = 0, period_upper = 10,
                    period_lower_inc = True, period_upper_inc = True\<rparr>,
      seq_linear = False\<rparr>"
  have respects: "\<forall>inst1 inst2. ?eq inst1 inst2 \<longrightarrow> ?hash inst1 = ?hash inst2" by simp
  have eq: "tsequence_eq (\<lambda>seq1 seq2. True) ?eq ?s1 ?s2"
    by (simp add: tsequence_eq_def seq_count_def period_eq_internal_def tsequence_inst_n_def
          upt_rec)
  from tsequence_eq_hash [of ?eq ?hash "\<lambda>seq1 seq2. True" ?s1 ?s2 "\<lambda>w. w + 1", OF respects eq] eq
  show ?thesis by simp
qed

subsection \<open>Intersection of segments\<close>

lemma c_long_fraction:
  assumes "0 < f" and "f < 1" and "t1 < t2"
  shows "t1 \<le> t1 + c_long (real_of_int (t2 - t1) * f) \<and>
         t1 + c_long (real_of_int (t2 - t1) * f) < t2"
proof -
  let ?d = "real_of_int (t2 - t1)"
  have d: "0 < ?d" using assms by simp
  have "0 \<le> ?d * f" using d assms by simp
  moreover have "?d * f < ?d" using d assms by simp
  ultimately have "0 \<le> c_long (?d * f) \<and> c_long (?d * f) < t2 - t1"
    by (simp add: c_long_def floor_less_iff)
  then show ?thesis by linarith
qed

text \<open>
  What the two routines guarantee in exact arithmetic, with a positive tolerance and a
  segment of positive duration: the fraction of a reported intersection with a value lies in the closed
  interval from EPSILON to 1 - EPSILON, that of two segments in the open interval, and
  the timestamp reported is not before the start of the segment and is before its end.
\<close>

lemma tnumberseq_value_fraction_range:
  assumes "tnumberseq_value_fraction eps inst1 inst2 v = Inr (Some fraction)"
  shows "\<not> \<bar>fraction\<bar> < eps \<and> \<not> \<bar>fraction - 1\<bar> < eps \<and> 0 \<le> fraction \<and> fraction \<le> 1"
  using assms
  by (auto simp: tnumberseq_value_fraction_def Let_def min_def max_def divide_le_eq
           split: datum.splits option.splits if_splits)

lemma tnumberseq_fraction_range:
  assumes "tnumberseq_fraction eps start1 end1 start2 end2 = Inr (Some fraction)"
  shows "eps < fraction \<and> fraction < 1 - eps"
  using assms
  by (auto simp: tnumberseq_fraction_def Let_def split: option.splits if_splits)

lemma tnumberseq_intersection_value_within:
  assumes eps: "0 < eps" and dur: "tinstant_t inst1 < tinstant_t inst2"
    and res: "tnumberseq_intersection_value eps inst1 inst2 v = Inr (Some t)"
  shows "tinstant_t inst1 \<le> t \<and> t < tinstant_t inst2"
proof -
  from res obtain fraction where fr: "tnumberseq_value_fraction eps inst1 inst2 v = Inr (Some fraction)"
    and t: "t = tinstant_t inst1 + c_long (real_of_int (tinstant_t inst2 - tinstant_t inst1) * fraction)"
    by (auto simp: tnumberseq_intersection_value_def Let_def split: sum.splits option.splits)
  from tnumberseq_value_fraction_range [OF fr] eps have "0 < fraction" "fraction < 1"
    by linarith+
  then show ?thesis unfolding t using dur by (intro c_long_fraction)
qed

lemma tnumberseq_intersection_within:
  assumes eps: "0 < eps" and dur: "tinstant_t start1 < tinstant_t end1"
    and res: "tnumberseq_intersection eps start1 end1 start2 end2 = Inr (Some t)"
  shows "tinstant_t start1 \<le> t \<and> t < tinstant_t end1"
proof -
  from res obtain fraction where fr: "tnumberseq_fraction eps start1 end1 start2 end2 = Inr (Some fraction)"
    and t: "t = tinstant_t start1 + c_long (real_of_int (tinstant_t end1 - tinstant_t start1) * fraction)"
    by (auto simp: tnumberseq_intersection_def Let_def split: sum.splits option.splits)
  from tnumberseq_fraction_range [OF fr] eps have "0 < fraction" "fraction < 1"
    by linarith+
  then show ?thesis unfolding t using dur by (intro c_long_fraction)
qed

text \<open>
  C6, evaluated where the code breaks it (\<open>EPSILON = 1.0E-06\<close>, timestamps in
  microseconds). On the segment from \<open>0@0\<close> to \<open>2@1\<close> the value \<open>1\<close> is crossed at the
  fraction \<open>0.5\<close>; the cast \<^verbatim>\<open>(long) (duration * fraction)\<close> truncates \<open>0.5\<close> to \<open>0\<close> and the
  timestamp reported is the start of the segment. The same happens for the two segments
  \<open>0@0 \<rightarrow> 2@1\<close> and \<open>2@0 \<rightarrow> 0@1\<close>. On the segment from \<open>0@0\<close> to \<open>1@10000000\<close> the value
  \<open>1.0E-06\<close> is at the fraction \<open>EPSILON\<close> itself, which is not in the open interval, and an
  intersection is reported.
\<close>

theorem tnumberseq_intersection_at_bound:
  "tnumberseq_value_fraction (1 / 1000000)
     \<lparr>tinstant_value = DFloat 0, tinstant_t = 0\<rparr>
     \<lparr>tinstant_value = DFloat 1, tinstant_t = 10000000\<rparr> (DFloat (1 / 1000000)) =
     Inr (Some (1 / 1000000))
   \<and> tnumberseq_intersection_value (1 / 1000000)
     \<lparr>tinstant_value = DFloat 0, tinstant_t = 0\<rparr>
     \<lparr>tinstant_value = DFloat 2, tinstant_t = 1\<rparr> (DFloat 1) = Inr (Some 0)
   \<and> tnumberseq_intersection (1 / 1000000)
     \<lparr>tinstant_value = DFloat 0, tinstant_t = 0\<rparr>
     \<lparr>tinstant_value = DFloat 2, tinstant_t = 1\<rparr>
     \<lparr>tinstant_value = DFloat 2, tinstant_t = 0\<rparr>
     \<lparr>tinstant_value = DFloat 0, tinstant_t = 1\<rparr> = Inr (Some 0)
   \<and> tnumberseq_intersection_value (1 / 1000000)
     \<lparr>tinstant_value = DFloat 0, tinstant_t = 0\<rparr>
     \<lparr>tinstant_value = DFloat 1, tinstant_t = 10000000\<rparr> (DFloat (1 / 1000000)) =
     Inr (Some 10)"
  by (simp add: tnumberseq_intersection_value_def tnumberseq_value_fraction_def
        tnumberseq_intersection_def tnumberseq_fraction_def datum_double_def c_long_def Let_def)




subsection \<open>Restriction to a value\<close>

lemma restrict_value_input_valid:
  "tsequence_valid
     \<lparr>seq_instants = [\<lparr>tinstant_value = DFloat 0, tinstant_t = 0\<rparr>,
                      \<lparr>tinstant_value = DFloat 2, tinstant_t = 1\<rparr>],
      seq_period = \<lparr>period_lower = 0, period_upper = 1,
                    period_lower_inc = True, period_upper_inc = True\<rparr>,
      seq_linear = True\<rparr>"
  by (simp add: tsequence_valid_def)

text \<open>
  C3, evaluated where the code breaks it (\<open>EPSILON = 1.0E-06\<close>, timestamps in
  microseconds, a bounding box test that passes). On the valid linear sequence
  \<open>[0@0, 2@1]\<close> and the value \<open>1\<close> the crossing is at the fraction \<open>0.5\<close>, its timestamp is
  truncated to \<open>0\<close>, the start of the segment. The restriction at the value returns the
  single instant \<open>0@0\<close>, whose value is not \<open>1\<close>. The restriction to the complement builds
  its first piece from the instants \<open>0@0\<close> and \<open>0@0\<close>, which \<^verbatim>\<open>tsequence_make\<close> rejects: it
  returns no sequences at all, and the results do not cover the time span.
\<close>

theorem tsequence_restrict_value_at_bound:
  "tsequence_at_value (\<lambda>seq v. True) (1 / 1000000)
     \<lparr>seq_instants = [\<lparr>tinstant_value = DFloat 0, tinstant_t = 0\<rparr>,
                      \<lparr>tinstant_value = DFloat 2, tinstant_t = 1\<rparr>],
      seq_period = \<lparr>period_lower = 0, period_upper = 1,
                    period_lower_inc = True, period_upper_inc = True\<rparr>,
      seq_linear = True\<rparr> (DFloat 1) =
     Inr [\<lparr>seq_instants = [\<lparr>tinstant_value = DFloat 0, tinstant_t = 0\<rparr>],
           seq_period = \<lparr>period_lower = 0, period_upper = 0,
                         period_lower_inc = True, period_upper_inc = True\<rparr>,
           seq_linear = True\<rparr>]
   \<and> tsequence_minus_value (\<lambda>seq v. True) (1 / 1000000)
     \<lparr>seq_instants = [\<lparr>tinstant_value = DFloat 0, tinstant_t = 0\<rparr>,
                      \<lparr>tinstant_value = DFloat 2, tinstant_t = 1\<rparr>],
      seq_period = \<lparr>period_lower = 0, period_upper = 1,
                    period_lower_inc = True, period_upper_inc = True\<rparr>,
      seq_linear = True\<rparr> (DFloat 1) = Inl ValidationError"
proof -
  have crossing: "tlinearseq_intersection_value (1 / 1000000)
      \<lparr>tinstant_value = DFloat 0, tinstant_t = 0\<rparr>
      \<lparr>tinstant_value = DFloat 2, tinstant_t = 1\<rparr> (DFloat 1) = Inr (Some (DFloat 0, 0))"
    by (simp add: tlinearseq_intersection_value_def tnumberseq_intersection_value_def
          tnumberseq_value_fraction_def datum_double_def datum_eq_def c_long_def
          tsequence_value_at_timestamp1_def)
  show ?thesis
    by (simp add: tsequence_at_value_def tsequence_at_value1_def
          tsequence_minus_value_def tlinearseq_minus_value1_def crossing
          tsequence_make_opt_def tsequence_make_def tinstant_make_def period_set_def
          datum_eq_def datum_ne_def)
qed

subsection \<open>Synchronization\<close>

lemma synchronize_input_valid:
  "tsequence_valid
     \<lparr>seq_instants = [\<lparr>tinstant_value = DFloat 0, tinstant_t = 0\<rparr>,
                      \<lparr>tinstant_value = DFloat 2, tinstant_t = 1\<rparr>],
      seq_period = \<lparr>period_lower = 0, period_upper = 1,
                    period_lower_inc = True, period_upper_inc = True\<rparr>,
      seq_linear = True\<rparr>
   \<and> tsequence_valid
     \<lparr>seq_instants = [\<lparr>tinstant_value = DFloat 2, tinstant_t = 0\<rparr>,
                      \<lparr>tinstant_value = DFloat 0, tinstant_t = 1\<rparr>],
      seq_period = \<lparr>period_lower = 0, period_upper = 1,
                    period_lower_inc = True, period_upper_inc = True\<rparr>,
      seq_linear = True\<rparr>"
  by (simp add: tsequence_valid_def)

text \<open>
  C5, evaluated where the code breaks it (\<open>EPSILON = 1.0E-06\<close>, timestamps in
  microseconds). The valid linear sequences \<open>[0@0, 2@1]\<close> and \<open>[2@0, 0@1]\<close> have the same
  period. With crossings requested, the crossing of the two segments is at the fraction
  \<open>0.5\<close> and its timestamp is truncated to \<open>0\<close>: the pair of instants \<open>0@0\<close> and \<open>2@0\<close> is
  inserted after the first pair, which has the same timestamp, and \<^verbatim>\<open>tsequence_make\<close>
  rejects the run \<open>0@0, 0@0, 2@1\<close>. No pair of sequences is returned although the periods
  overlap. Without crossings the two sequences are returned as they are.
\<close>

theorem synchronize_tsequence_tsequence_crossing_at_bound:
  "synchronize_tsequence_tsequence (1 / 1000000)
     \<lparr>seq_instants = [\<lparr>tinstant_value = DFloat 0, tinstant_t = 0\<rparr>,
                      \<lparr>tinstant_value = DFloat 2, tinstant_t = 1\<rparr>],
      seq_period = \<lparr>period_lower = 0, period_upper = 1,
                    period_lower_inc = True, period_upper_inc = True\<rparr>,
      seq_linear = True\<rparr>
     \<lparr>seq_instants = [\<lparr>tinstant_value = DFloat 2, tinstant_t = 0\<rparr>,
                      \<lparr>tinstant_value = DFloat 0, tinstant_t = 1\<rparr>],
      seq_period = \<lparr>period_lower = 0, period_upper = 1,
                    period_lower_inc = True, period_upper_inc = True\<rparr>,
      seq_linear = True\<rparr> True = Inl ValidationError
   \<and> synchronize_tsequence_tsequence (1 / 1000000)
     \<lparr>seq_instants = [\<lparr>tinstant_value = DFloat 0, tinstant_t = 0\<rparr>,
                      \<lparr>tinstant_value = DFloat 2, tinstant_t = 1\<rparr>],
      seq_period = \<lparr>period_lower = 0, period_upper = 1,
                    period_lower_inc = True, period_upper_inc = True\<rparr>,
      seq_linear = True\<rparr>
     \<lparr>seq_instants = [\<lparr>tinstant_value = DFloat 2, tinstant_t = 0\<rparr>,
                      \<lparr>tinstant_value = DFloat 0, tinstant_t = 1\<rparr>],
      seq_period = \<lparr>period_lower = 0, period_upper = 1,
                    period_lower_inc = True, period_upper_inc = True\<rparr>,
      seq_linear = True\<rparr> False =
     Inr (Some
       (\<lparr>seq_instants = [\<lparr>tinstant_value = DFloat 0, tinstant_t = 0\<rparr>,
                         \<lparr>tinstant_value = DFloat 2, tinstant_t = 1\<rparr>],
         seq_period = \<lparr>period_lower = 0, period_upper = 1,
                       period_lower_inc = True, period_upper_inc = True\<rparr>,
         seq_linear = True\<rparr>,
        \<lparr>seq_instants = [\<lparr>tinstant_value = DFloat 2, tinstant_t = 0\<rparr>,
                         \<lparr>tinstant_value = DFloat 0, tinstant_t = 1\<rparr>],
         seq_period = \<lparr>period_lower = 0, period_upper = 1,
                       period_lower_inc = True, period_upper_inc = True\<rparr>,
         seq_linear = True\<rparr>))"
proof -
  let ?a0 = "\<lparr>tinstant_value = DFloat 0, tinstant_t = 0\<rparr>"
  let ?a1 = "\<lparr>tinstant_value = DFloat 2, tinstant_t = 1\<rparr>"
  let ?b0 = "\<lparr>tinstant_value = DFloat 2, tinstant_t = 0\<rparr>"
  let ?b1 = "\<lparr>tinstant_value = DFloat 0, tinstant_t = 1\<rparr>"
  let ?p = "\<lparr>period_lower = 0, period_upper = 1,
             period_lower_inc = True, period_upper_inc = True\<rparr>"
  let ?s1 = "\<lparr>seq_instants = [?a0, ?a1], seq_period = ?p, seq_linear = True\<rparr>"
  let ?s2 = "\<lparr>seq_instants = [?b0, ?b1], seq_period = ?p, seq_linear = True\<rparr>"
  have pinter: "intersection_period_period_internal ?p ?p = Some ?p"
    by (simp add: intersection_period_period_internal_def)
  have crossing: "tsequence_intersection (1 / 1000000) ?a0 ?a1 True ?b0 ?b1 True =
                  Inr (Some (DFloat 0, DFloat 2, 0))"
    by (simp add: tsequence_intersection_def tnumberseq_intersection_def
          tnumberseq_fraction_def datum_double_def c_long_def
          tsequence_value_at_timestamp1_def datum_eq_def)
  have first: "synchronize_add (1 / 1000000) c True True ?a0 ?b0 [] [] = Inr ([?a0], [?b0])" for c
    by (simp add: synchronize_add_def)
  have with_crossing: "synchronize_add (1 / 1000000) True True True ?a1 ?b1 [?a0] [?b0] =
                Inr ([?a0, tinstant_make (DFloat 0) 0, ?a1], [?b0, tinstant_make (DFloat 2) 0, ?b1])"
    by (simp add: synchronize_add_def crossing)
  have without: "synchronize_add (1 / 1000000) False True True ?a1 ?b1 [?a0] [?b0] =
                Inr ([?a0, ?a1], [?b0, ?b1])"
    by (simp add: synchronize_add_def)
  have bug: "synchronize_tsequence_tsequence (1 / 1000000) ?s1 ?s2 True = Inl ValidationError"
    by (simp add: synchronize_tsequence_tsequence_def pinter tsequence_inst_n_def
          first with_crossing synchronize_step_patch_def tsequence_make_def tinstant_make_def Let_def)
  have ok: "synchronize_tsequence_tsequence (1 / 1000000) ?s1 ?s2 False = Inr (Some (?s1, ?s2))"
    by (simp add: synchronize_tsequence_tsequence_def pinter tsequence_inst_n_def
          first without synchronize_step_patch_def tsequence_make_def period_set_def Let_def)
  from bug ok show ?thesis by (intro conjI)
qed

end
